theory Spec2Isabelle
  imports Main "HOL-Library.Word"
begin

unbundle bit_operations_syntax

section \<open>The GPUDirect Storage file driver (src/H5FDgds.c)\<close>

text \<open>
  The model follows the build of \<^verbatim>\<open>H5FDgds.c\<close> in which \<^verbatim>\<open>H5_GDS_SUPPORT\<close> and
  \<^verbatim>\<open>H5_HAVE_PREADWRITE\<close> are defined and \<^verbatim>\<open>H5_HAVE_WIN32_API\<close> is not: the
  accelerator path is compiled in and the host path uses \<^verbatim>\<open>pread\<close>/\<^verbatim>\<open>pwrite\<close>.
  File addresses (\<^verbatim>\<open>haddr_t\<close>), sizes (\<^verbatim>\<open>size_t\<close>) and offsets (\<^verbatim>\<open>HDoff_t\<close>,
  \<^verbatim>\<open>off_t\<close>, \<^verbatim>\<open>ssize_t\<close>) are 64-bit words, \<^verbatim>\<open>int\<close> and \<^verbatim>\<open>unsigned\<close> are 32-bit
  words. A return value of type \<^verbatim>\<open>herr_t\<close> is an integer: negative on failure,
  non-negative on success, as the source's own comments and its test
  \<^verbatim>\<open>if(ret_value < 0)\<close> have it.
\<close>

subsection \<open>Types and constants\<close>

type_synonym byte = "8 word"
type_synonym haddr_t = "64 word"
type_synonym herr_t = int

definition SUCCEED :: herr_t where
  "SUCCEED = 0"

definition FAIL :: herr_t where
  "FAIL = - 1"

definition HADDR_UNDEF :: haddr_t where
  "HADDR_UNDEF = - 1"

text \<open>The null pointer, and what the assignment \<^verbatim>\<open>ret_value = NULL\<close> stores in
  the \<^verbatim>\<open>int\<close> variable \<^verbatim>\<open>ret_value\<close>: the pointer's low 32 bits, read as signed.\<close>

definition NULL :: "64 word" where
  "NULL = 0"

definition herr_of_ptr :: "64 word \<Rightarrow> herr_t" where
  "herr_of_ptr p = sint (ucast p :: 32 word)"

text \<open>\<^verbatim>\<open>#define MAXADDR (((haddr_t)1<<(8*sizeof(HDoff_t)-1))-1)\<close> and the three
  overflow macros.\<close>

definition MAXADDR :: haddr_t where
  "MAXADDR = push_bit 63 1 - 1"

definition ADDR_OVERFLOW :: "haddr_t \<Rightarrow> bool" where
  "ADDR_OVERFLOW A = (HADDR_UNDEF = A \<or> (A AND NOT MAXADDR) \<noteq> 0)"

definition SIZE_OVERFLOW :: "64 word \<Rightarrow> bool" where
  "SIZE_OVERFLOW Z = ((Z AND NOT MAXADDR) \<noteq> 0)"

definition REGION_OVERFLOW :: "haddr_t \<Rightarrow> 64 word \<Rightarrow> bool" where
  "REGION_OVERFLOW A Z =
     (ADDR_OVERFLOW A \<or> SIZE_OVERFLOW Z \<or> HADDR_UNDEF = A + Z \<or> sint (A + Z) < sint A)"

text \<open>Modelled from the spec: the macros \<^verbatim>\<open>H5F_addr_defined\<close> and \<^verbatim>\<open>H5F_addr_eq\<close>
  are declared in \<^verbatim>\<open>H5Fprivate.h\<close>, which is not part of the source at hand. The
  spec reads the first as "the address is not the undefined sentinel" and the test of
  truncate as "if eoa differs from eof".\<close>

definition H5F_addr_defined :: "haddr_t \<Rightarrow> bool" where
  "H5F_addr_defined X = (X \<noteq> HADDR_UNDEF)"

definition H5F_addr_eq :: "haddr_t \<Rightarrow> haddr_t \<Rightarrow> bool" where
  "H5F_addr_eq X Y = (X = Y)"

datatype H5FD_file_op_t = OP_UNKNOWN | OP_READ | OP_WRITE

text \<open>The fields of \<^verbatim>\<open>H5FD_gds_t\<close> that the modelled operations read or write.\<close>

record H5FD_gds_t =
  fd :: int
  direct_fd :: int
  num_io_threads :: "32 word"
  io_block_size :: "64 word"
  eoa :: haddr_t
  eof :: haddr_t
  pos :: haddr_t
  op :: H5FD_file_op_t
  fam_to_single :: bool

record thread_data_t =
  offset :: "64 word"
  devPtr_offset :: "64 word"
  block_size :: "64 word"
  size_td :: "64 word"

subsection \<open>The operating system and the accelerator subsystem\<close>

text \<open>
  What the driver calls but does not define is an explicit world: the bytes of the one
  file that both descriptors refer to, the outcomes the environment has in store, and a
  log of the calls made. \<open>io_script\<close> lists the disturbances of the coming
  \<^verbatim>\<open>pread\<close>/\<^verbatim>\<open>pwrite\<close> calls, one entry per call: an interrupt, a hard error, or a
  short transfer of at most \<open>Suc n\<close> bytes; once the list is used up every call
  transfers in full. \<open>cu_script\<close> does the same for \<^verbatim>\<open>cuFileRead\<close>/\<^verbatim>\<open>cuFileWrite\<close>.
\<close>

datatype io_ev = EV_EINTR | EV_ERROR | EV_SHORT nat

datatype cu_ev = CU_ERROR | CU_SHORT nat

datatype sys_call =
    SC_pread int nat "64 word"
  | SC_pwrite int nat "64 word"
  | SC_lseek int
  | SC_ftruncate int "64 word"
  | SC_close int
  | SC_cuFileBufRegister "64 word"
  | SC_cuFileBufDeregister
  | SC_cuFileRead "64 word" "64 word" "64 word"
  | SC_cuFileWrite "64 word" "64 word" "64 word"
  | SC_cuFileHandleDeregister
  | SC_cuFileDriverClose
  | SC_free_td
  | SC_free_threads
  | SC_H5FL_FREE

record sys =
  file_bytes :: "byte list"
  io_script :: "io_ev list"
  cu_script :: "cu_ev list"
  ftruncate_ok :: bool
  buf_register_ok :: bool
  buf_deregister_ok :: bool
  driver_close_ok :: bool
  close_fails :: "int list"
  calls :: "sys_call list"

definition log_call :: "sys_call \<Rightarrow> sys \<Rightarrow> sys" where
  "log_call c w = w\<lparr>calls := calls w @ [c]\<rparr>"

text \<open>A result of the process: a call returns, or an \<^verbatim>\<open>assert\<close> fails and the
  process is aborted.\<close>

datatype 'a outcome = Returned 'a | Aborted

subsection \<open>Allocated end, physical end, truncate\<close>

definition H5FD_gds_get_eoa :: "H5FD_gds_t \<Rightarrow> haddr_t" where
  "H5FD_gds_get_eoa file = eoa file"

definition H5FD_gds_set_eoa :: "H5FD_gds_t \<Rightarrow> haddr_t \<Rightarrow> herr_t \<times> H5FD_gds_t" where
  "H5FD_gds_set_eoa file addr = (SUCCEED, file\<lparr>eoa := addr\<rparr>)"

definition H5FD_gds_get_eof :: "H5FD_gds_t \<Rightarrow> haddr_t" where
  "H5FD_gds_get_eof file = eof file"

text \<open>\<^verbatim>\<open>ftruncate(fd, length)\<close>: a negative length is refused, as POSIX has it;
  otherwise the file is cut, or extended with zero bytes, to exactly \<open>length\<close> bytes.\<close>

definition resize :: "nat \<Rightarrow> byte list \<Rightarrow> byte list" where
  "resize n bs = take n bs @ replicate (n - length bs) 0"

definition HDftruncate :: "sys \<Rightarrow> int \<Rightarrow> 64 word \<Rightarrow> int \<times> sys" where
  "HDftruncate w d len =
     (let w1 = log_call (SC_ftruncate d len) w
      in if ftruncate_ok w \<and> 0 \<le> sint len
         then (0, w1\<lparr>file_bytes := resize (nat (sint len)) (file_bytes w)\<rparr>)
         else (- 1, w1))"

definition H5FD_gds_truncate :: "sys \<Rightarrow> H5FD_gds_t \<Rightarrow> herr_t \<times> H5FD_gds_t \<times> sys" where
  "H5FD_gds_truncate w file =
     (if \<not> H5F_addr_eq (eoa file) (eof file) then
        (case HDftruncate w (fd file) (eoa file) of (r, w1) \<Rightarrow>
           if r = - 1 then (FAIL, file, w1)
           else (SUCCEED, file\<lparr>eof := eoa file, pos := HADDR_UNDEF, op := OP_UNKNOWN\<rparr>, w1))
      else (SUCCEED, file, w))"

subsection \<open>Close\<close>

text \<open>
  \<^verbatim>\<open>HGOTO_ERROR(maj, min, ret_val, ...)\<close> records the error, stores \<open>ret_val\<close>
  in \<^verbatim>\<open>ret_value\<close> and jumps to the label \<^verbatim>\<open>done\<close>; every step after the jump is
  skipped. \<^verbatim>\<open>cuFileHandleDeregister\<close> returns nothing. The static flag
  \<^verbatim>\<open>cu_file_driver_closed\<close> is passed in and returned. The two \<^verbatim>\<open>HDfree\<close> calls,
  which the code makes when the pointers are not null, are logged in either case.
\<close>

definition HDclose :: "sys \<Rightarrow> int \<Rightarrow> int \<times> sys" where
  "HDclose w d = (if d \<in> set (close_fails w) then - 1 else 0, log_call (SC_close d) w)"

definition cuFileDriverClose :: "sys \<Rightarrow> bool \<times> sys" where
  "cuFileDriverClose w = (driver_close_ok w, log_call SC_cuFileDriverClose w)"

definition H5FD_gds_close :: "sys \<Rightarrow> bool \<Rightarrow> H5FD_gds_t \<Rightarrow> herr_t \<times> bool \<times> sys" where
  "H5FD_gds_close w cu_file_driver_closed file =
     (let w1 = log_call SC_cuFileHandleDeregister w;
          (ok, w2) = (if \<not> cu_file_driver_closed then cuFileDriverClose w1 else (True, w1))
      in if \<not> ok then (herr_of_ptr NULL, cu_file_driver_closed, w2)
         else
           (let closed = True;
                (r3, w3) = HDclose w2 (direct_fd file)
            in if r3 < 0 then (FAIL, closed, w3)
               else
                 (let w4 = log_call SC_free_threads (log_call SC_free_td w3);
                      (r5, w5) = HDclose w4 (fd file)
                  in if r5 < 0 then (FAIL, closed, w5)
                     else (SUCCEED, closed, log_call SC_H5FL_FREE w5))))"

text \<open>The calls that one close adds to the log, in the order they are made.\<close>

definition close_steps :: "sys \<Rightarrow> bool \<Rightarrow> H5FD_gds_t \<Rightarrow> sys_call list" where
  "close_steps w c file = drop (length (calls w)) (calls (snd (snd (H5FD_gds_close w c file))))"

subsection \<open>The buffer classifier\<close>

text \<open>
  \<^verbatim>\<open>cudaPointerGetAttributes\<close> belongs to the accelerator runtime: it is a parameter,
  a function from the pointer and the contents that the structure \<^verbatim>\<open>attributes\<close>
  has before the call to a status and the contents after the call. The structure is an
  automatic variable without initialiser, so its contents before the call are another
  parameter. The status is not stored by \<^verbatim>\<open>is_device_pointer\<close>.
\<close>

record cudaPointerAttributes =
  devicePointer :: "64 word"

type_synonym cuda_runtime = "64 word \<Rightarrow> cudaPointerAttributes \<Rightarrow> int \<times> cudaPointerAttributes"

definition is_device_pointer :: "cuda_runtime \<Rightarrow> cudaPointerAttributes \<Rightarrow> 64 word \<Rightarrow> int" where
  "is_device_pointer cudaPointerGetAttributes attributes0 ptr =
     (let is_device_ptr = 0;
          attributes = snd (cudaPointerGetAttributes ptr attributes0)
      in if devicePointer attributes \<noteq> NULL then 1 else is_device_ptr)"

subsection \<open>Transfer primitives\<close>

text \<open>
  A file is its list of bytes. Reading \<open>n\<close> bytes at \<open>off\<close> yields the bytes that
  exist there (none at or past the end); writing past the end fills the gap with zero
  bytes. \<open>buf_store\<close> overwrites a buffer from index \<open>p\<close> on.
\<close>

definition file_read :: "byte list \<Rightarrow> nat \<Rightarrow> nat \<Rightarrow> byte list" where
  "file_read data off n = take n (drop off data)"

definition file_write :: "byte list \<Rightarrow> nat \<Rightarrow> byte list \<Rightarrow> byte list" where
  "file_write data off bs =
     take off data @ replicate (off - length data) 0 @ bs @ drop (off + length bs) data"

definition buf_store :: "byte list \<Rightarrow> nat \<Rightarrow> byte list \<Rightarrow> byte list" where
  "buf_store buf p bs = take p buf @ bs @ drop (p + length bs) buf"

text \<open>The next entry of a script decides how many of the \<open>n\<close> requested bytes a call
  may transfer; \<open>None\<close> is a failed call.\<close>

definition cu_grant :: "cu_ev list \<Rightarrow> nat \<Rightarrow> nat option \<times> cu_ev list" where
  "cu_grant s n =
     (case s of
        [] \<Rightarrow> (Some n, [])
      | CU_ERROR # s' \<Rightarrow> (None, s')
      | CU_SHORT c # s' \<Rightarrow> (Some (min n (Suc c)), s'))"

text \<open>\<^verbatim>\<open>cuFileRead(fh, bufPtr_base, size, file_offset, bufPtr_offset)\<close> returns the number
  of bytes read, or \<open>-1\<close>; a negative offset is an error.\<close>

definition cuFileRead ::
  "sys \<Rightarrow> byte list \<Rightarrow> 64 word \<Rightarrow> 64 word \<Rightarrow> 64 word \<Rightarrow> int \<times> sys \<times> byte list" where
  "cuFileRead w buf n file_offset bufPtr_offset =
     (let w1 = log_call (SC_cuFileRead n file_offset bufPtr_offset) w
      in case cu_grant (cu_script w) (unat n) of (g, s) \<Rightarrow>
           (case g of
              None \<Rightarrow> (- 1, w1\<lparr>cu_script := s\<rparr>, buf)
            | Some k \<Rightarrow>
                if sint file_offset < 0 \<or> sint bufPtr_offset < 0
                then (- 1, w1\<lparr>cu_script := s\<rparr>, buf)
                else
                  (let bs = file_read (file_bytes w) (unat file_offset) k
                   in (int (length bs), w1\<lparr>cu_script := s\<rparr>,
                       buf_store buf (unat bufPtr_offset) bs))))"

definition cuFileWrite ::
  "sys \<Rightarrow> byte list \<Rightarrow> 64 word \<Rightarrow> 64 word \<Rightarrow> 64 word \<Rightarrow> int \<times> sys" where
  "cuFileWrite w buf n file_offset bufPtr_offset =
     (let w1 = log_call (SC_cuFileWrite n file_offset bufPtr_offset) w
      in case cu_grant (cu_script w) (unat n) of (g, s) \<Rightarrow>
           (case g of
              None \<Rightarrow> (- 1, w1\<lparr>cu_script := s\<rparr>)
            | Some k \<Rightarrow>
                if sint file_offset < 0 \<or> sint bufPtr_offset < 0
                then (- 1, w1\<lparr>cu_script := s\<rparr>)
                else
                  (let bs = take k (drop (unat bufPtr_offset) buf)
                   in (int (length bs),
                       w1\<lparr>cu_script := s,
                          file_bytes := file_write (file_bytes w) (unat file_offset) bs\<rparr>))))"

definition cuFileBufRegister :: "sys \<Rightarrow> 64 word \<Rightarrow> bool \<times> sys" where
  "cuFileBufRegister w sz = (buf_register_ok w, log_call (SC_cuFileBufRegister sz) w)"

definition cuFileBufDeregister :: "sys \<Rightarrow> bool \<times> sys" where
  "cuFileBufDeregister w = (buf_deregister_ok w, log_call SC_cuFileBufDeregister w)"

text \<open>\<^verbatim>\<open>pread\<close> and \<^verbatim>\<open>pwrite\<close>: interrupted, failed, or the bytes transferred.\<close>

datatype 'a io_ret = IO_EINTR | IO_ERROR | IO_DONE 'a

definition HDpread :: "sys \<Rightarrow> int \<Rightarrow> nat \<Rightarrow> 64 word \<Rightarrow> byte list io_ret \<times> sys" where
  "HDpread w d bytes_in off =
     (let w1 = log_call (SC_pread d bytes_in off) w
      in case io_script w of
           [] \<Rightarrow>
             (if sint off < 0 then IO_ERROR
              else IO_DONE (file_read (file_bytes w) (unat off) bytes_in), w1)
         | EV_EINTR # s \<Rightarrow> (IO_EINTR, w1\<lparr>io_script := s\<rparr>)
         | EV_ERROR # s \<Rightarrow> (IO_ERROR, w1\<lparr>io_script := s\<rparr>)
         | EV_SHORT c # s \<Rightarrow>
             (if sint off < 0 then IO_ERROR
              else IO_DONE (file_read (file_bytes w) (unat off) (min bytes_in (Suc c))),
              w1\<lparr>io_script := s\<rparr>))"

definition HDpwrite :: "sys \<Rightarrow> int \<Rightarrow> byte list \<Rightarrow> nat \<Rightarrow> 64 word \<Rightarrow> nat io_ret \<times> sys" where
  "HDpwrite w d src bytes_in off =
     (let w1 = log_call (SC_pwrite d bytes_in off) w
      in case io_script w of
           [] \<Rightarrow>
             (if sint off < 0 then (IO_ERROR, w1)
              else (IO_DONE (length (take bytes_in src)),
                    w1\<lparr>file_bytes := file_write (file_bytes w) (unat off) (take bytes_in src)\<rparr>))
         | EV_EINTR # s \<Rightarrow> (IO_EINTR, w1\<lparr>io_script := s\<rparr>)
         | EV_ERROR # s \<Rightarrow> (IO_ERROR, w1\<lparr>io_script := s\<rparr>)
         | EV_SHORT c # s \<Rightarrow>
             (if sint off < 0 then (IO_ERROR, w1\<lparr>io_script := s\<rparr>)
              else (IO_DONE (length (take (min bytes_in (Suc c)) src)),
                    w1\<lparr>io_script := s,
                       file_bytes := file_write (file_bytes w) (unat off)
                                       (take (min bytes_in (Suc c)) src)\<rparr>)))"

subsection \<open>The worker threads\<close>

function read_thread_fn :: "sys \<Rightarrow> byte list \<Rightarrow> thread_data_t \<Rightarrow> (sys \<times> byte list) outcome" where
  "read_thread_fn w buf td =
     (if 0 < size_td td then
        (if block_size td < size_td td then
           (case cuFileRead w buf (block_size td) (offset td) (devPtr_offset td) of
              (ret, w1, buf1) \<Rightarrow>
                if 0 < ret
                then read_thread_fn w1 buf1
                       (td\<lparr>offset := offset td + block_size td,
                            devPtr_offset := devPtr_offset td + block_size td,
                            size_td := size_td td - block_size td\<rparr>)
                else Aborted)
         else
           (case cuFileRead w buf (size_td td) (offset td) (devPtr_offset td) of
              (ret, w1, buf1) \<Rightarrow> if 0 < ret then Returned (w1, buf1) else Aborted))
      else Returned (w, buf))"
  by pat_completeness auto
termination
  apply (relation "measure (\<lambda>(w, buf, td). unat (size_td td))")
   apply simp
  apply (subgoal_tac "block_size td \<noteq> 0")
   apply (simp add: unat_sub word_le_nat_alt word_less_nat_alt unat_gt_0)
  apply (auto simp: cuFileRead_def cu_grant_def file_read_def Let_def
      split: list.splits cu_ev.splits option.splits if_splits)
  done

function write_thread_fn :: "sys \<Rightarrow> byte list \<Rightarrow> thread_data_t \<Rightarrow> sys outcome" where
  "write_thread_fn w buf td =
     (if 0 < size_td td then
        (if block_size td < size_td td then
           (case cuFileWrite w buf (block_size td) (offset td) (devPtr_offset td) of
              (ret, w1) \<Rightarrow>
                if 0 < ret
                then write_thread_fn w1 buf
                       (td\<lparr>offset := offset td + block_size td,
                            devPtr_offset := devPtr_offset td + block_size td,
                            size_td := size_td td - block_size td\<rparr>)
                else Aborted)
         else
           (case cuFileWrite w buf (size_td td) (offset td) (devPtr_offset td) of
              (ret, w1) \<Rightarrow> if 0 < ret then Returned w1 else Aborted))
      else Returned w)"
  by pat_completeness auto
termination
  apply (relation "measure (\<lambda>(w, buf, td). unat (size_td td))")
   apply simp
  apply (subgoal_tac "block_size td \<noteq> 0")
   apply (simp add: unat_sub word_le_nat_alt word_less_nat_alt unat_gt_0)
  apply (auto simp: cuFileWrite_def cu_grant_def Let_def
      split: list.splits cu_ev.splits option.splits if_splits)
  done

text \<open>All workers are created and then joined. They work on disjoint ranges of the
  file and of the device buffer; the model runs them one after the other, in the order
  of their index. An assertion failing in a worker aborts the process.\<close>

fun run_read_threads :: "sys \<Rightarrow> byte list \<Rightarrow> thread_data_t list \<Rightarrow> (sys \<times> byte list) outcome" where
  "run_read_threads w buf [] = Returned (w, buf)"
| "run_read_threads w buf (td # tds) =
     (case read_thread_fn w buf td of
        Aborted \<Rightarrow> Aborted
      | Returned (w1, buf1) \<Rightarrow> run_read_threads w1 buf1 tds)"

fun run_write_threads :: "sys \<Rightarrow> byte list \<Rightarrow> thread_data_t list \<Rightarrow> sys outcome" where
  "run_write_threads w buf [] = Returned w"
| "run_write_threads w buf (td # tds) =
     (case write_thread_fn w buf td of
        Aborted \<Rightarrow> Aborted
      | Returned w1 \<Rightarrow> run_write_threads w1 buf tds)"

subsection \<open>The chunk partitioner\<close>

text \<open>
  The same lines stand in \<^verbatim>\<open>H5FD_gds_read\<close> and in \<^verbatim>\<open>H5FD_gds_write\<close>. The
  comparison with the page count is made in 64 bits; the division and the remainder
  are made on \<^verbatim>\<open>(unsigned)size\<close> and \<^verbatim>\<open>(unsigned)io_threads\<close>, that is in 32 bits,
  and stored in the 64-bit \<^verbatim>\<open>io_chunk\<close> and \<^verbatim>\<open>io_chunk_rem\<close>. The loop index
  \<^verbatim>\<open>ii\<close> runs from 0 below \<^verbatim>\<open>io_threads\<close>.
\<close>

definition effective_io_threads :: "64 word \<Rightarrow> 32 word \<Rightarrow> 32 word" where
  "effective_io_threads sz io_threads =
     (if 1 + (sz - 1) div 4096 < ucast io_threads
      then ucast (1 + (sz - 1) div 4096)
      else io_threads)"

definition io_chunk :: "64 word \<Rightarrow> 32 word \<Rightarrow> 64 word" where
  "io_chunk sz io_threads = ucast ((ucast sz :: 32 word) div io_threads)"

definition io_chunk_rem :: "64 word \<Rightarrow> 32 word \<Rightarrow> 64 word" where
  "io_chunk_rem sz io_threads = ucast ((ucast sz :: 32 word) mod io_threads)"

definition fill_td :: "64 word \<Rightarrow> 64 word \<Rightarrow> 32 word \<Rightarrow> 32 word \<Rightarrow> thread_data_t list" where
  "fill_td off sz io_threads blk =
     map (\<lambda>ii.
            \<lparr>offset = off + of_nat ii * io_chunk sz io_threads,
             devPtr_offset = of_nat ii * io_chunk sz io_threads,
             block_size = scast blk,
             size_td = (if int ii = sint io_threads - 1
                        then io_chunk sz io_threads + io_chunk_rem sz io_threads
                        else io_chunk sz io_threads)\<rparr>)
         [0 ..< nat (sint io_threads)]"

definition partition_td :: "H5FD_gds_t \<Rightarrow> 64 word \<Rightarrow> 64 word \<Rightarrow> thread_data_t list" where
  "partition_td file off sz =
     fill_td off sz (effective_io_threads sz (num_io_threads file)) (ucast (io_block_size file))"

subsection \<open>The accelerator transfer\<close>

text \<open>The block between \<^verbatim>\<open>cuFileBufRegister\<close> and \<^verbatim>\<open>cuFileBufDeregister\<close>:
  with a positive thread count the request is partitioned and handed to the workers,
  otherwise one call transfers it. \<^verbatim>\<open>assert\<close> is taken as enabled.\<close>

definition gds_read_transfer ::
  "sys \<Rightarrow> H5FD_gds_t \<Rightarrow> 64 word \<Rightarrow> 64 word \<Rightarrow> byte list \<Rightarrow> (sys \<times> byte list) outcome" where
  "gds_read_transfer w file off sz buf =
     (if 0 < sint (num_io_threads file) then
        (if sz = 0 then Aborted
         else run_read_threads w buf (partition_td file off sz))
      else
        (case cuFileRead w buf sz off 0 of
           (ret, w1, buf1) \<Rightarrow> if 0 < ret then Returned (w1, buf1) else Aborted))"

definition gds_write_transfer ::
  "sys \<Rightarrow> H5FD_gds_t \<Rightarrow> 64 word \<Rightarrow> 64 word \<Rightarrow> byte list \<Rightarrow> sys outcome" where
  "gds_write_transfer w file off sz buf =
     (if 0 < sint (num_io_threads file) then
        (if sz = 0 then Aborted
         else run_write_threads w buf (partition_td file off sz))
      else
        (case cuFileWrite w buf sz off 0 of
           (ret, w1) \<Rightarrow> if 0 < ret then Returned w1 else Aborted))"

subsection \<open>The host path\<close>

text \<open>The \<^verbatim>\<open>do ... while(-1 == bytes_read && EINTR == errno)\<close> loops.\<close>

function pread_retry :: "sys \<Rightarrow> int \<Rightarrow> nat \<Rightarrow> 64 word \<Rightarrow> byte list io_ret \<times> sys" where
  "pread_retry w d bytes_in off =
     (case HDpread w d bytes_in off of
        (r, w1) \<Rightarrow>
          (case r of
             IO_EINTR \<Rightarrow> pread_retry w1 d bytes_in off
           | IO_ERROR \<Rightarrow> (r, w1)
           | IO_DONE bs \<Rightarrow> (r, w1)))"
  by pat_completeness auto
termination
  apply (relation "measure (\<lambda>(w, d, bytes_in, off). length (io_script w))")
   apply simp
  apply (auto simp: HDpread_def log_call_def Let_def split: list.splits io_ev.splits if_splits)
  done

function pwrite_retry :: "sys \<Rightarrow> int \<Rightarrow> byte list \<Rightarrow> nat \<Rightarrow> 64 word \<Rightarrow> nat io_ret \<times> sys" where
  "pwrite_retry w d src bytes_in off =
     (case HDpwrite w d src bytes_in off of
        (r, w1) \<Rightarrow>
          (case r of
             IO_EINTR \<Rightarrow> pwrite_retry w1 d src bytes_in off
           | IO_ERROR \<Rightarrow> (r, w1)
           | IO_DONE k \<Rightarrow> (r, w1)))"
  by pat_completeness auto
termination
  apply (relation "measure (\<lambda>(w, d, src, bytes_in, off). length (io_script w))")
   apply simp
  apply (auto simp: HDpwrite_def log_call_def Let_def split: list.splits io_ev.splits if_splits)
  done

text \<open>
  The \<^verbatim>\<open>while(size > 0)\<close> loop of the read. \<open>buf\<close> is the destination memory from
  the caller's pointer on and \<open>p\<close> the distance the pointer has advanced. The result
  says whether the loop ended without error, and gives the address reached, the world
  and the destination memory. On an error the loop asks for the cursor
  (\<^verbatim>\<open>HDlseek(fd, 0, SEEK_CUR)\<close>) for its message.
\<close>

function read_loop ::
  "nat \<Rightarrow> sys \<Rightarrow> int \<Rightarrow> haddr_t \<Rightarrow> 64 word \<Rightarrow> nat \<Rightarrow> byte list \<Rightarrow> nat
     \<Rightarrow> bool \<times> haddr_t \<times> sys \<times> byte list" where
  "read_loop max_io w d addr off sz buf p =
     (if 0 < sz then
        (case pread_retry w d (if max_io < sz then max_io else sz) off of
           (r, w1) \<Rightarrow>
             (case r of
                IO_DONE bs \<Rightarrow>
                  if length bs = 0
                  then (True, addr, w1, buf_store buf p (replicate sz 0))
                  else read_loop max_io w1 d (addr + of_nat (length bs))
                         (off + of_nat (length bs)) (sz - length bs)
                         (buf_store buf p bs) (p + length bs)
              | IO_EINTR \<Rightarrow> (False, addr, log_call (SC_lseek d) w1, buf)
              | IO_ERROR \<Rightarrow> (False, addr, log_call (SC_lseek d) w1, buf)))
      else (True, addr, w, buf))"
  by pat_completeness auto
termination
  by (relation "measure (\<lambda>(max_io, w, d, addr, off, sz, buf, p). sz)") auto

text \<open>The loop of the write. \<open>src\<close> is the source memory from the current pointer on.
  \<^verbatim>\<open>HDassert(bytes_wrote > 0)\<close> is taken as enabled.\<close>

function write_loop ::
  "nat \<Rightarrow> sys \<Rightarrow> int \<Rightarrow> haddr_t \<Rightarrow> 64 word \<Rightarrow> nat \<Rightarrow> byte list
     \<Rightarrow> (bool \<times> haddr_t \<times> sys) outcome" where
  "write_loop max_io w d addr off sz src =
     (if 0 < sz then
        (case pwrite_retry w d src (if max_io < sz then max_io else sz) off of
           (r, w1) \<Rightarrow>
             (case r of
                IO_DONE k \<Rightarrow>
                  if k = 0 then Aborted
                  else write_loop max_io w1 d (addr + of_nat k) (off + of_nat k) (sz - k)
                         (drop k src)
              | IO_EINTR \<Rightarrow> Returned (False, addr, log_call (SC_lseek d) w1)
              | IO_ERROR \<Rightarrow> Returned (False, addr, log_call (SC_lseek d) w1)))
      else Returned (True, addr, w))"
  by pat_completeness auto
termination
  by (relation "measure (\<lambda>(max_io, w, d, addr, off, sz, src). sz)") auto

subsection \<open>Read and write\<close>

text \<open>
  \<open>env\<close> holds what a call finds and does not change: the accelerator runtime's
  pointer query with the contents of the uninitialised \<^verbatim>\<open>attributes\<close> structure, and
  the constant \<^verbatim>\<open>H5_POSIX_MAX_IO_BYTES\<close> (declared in \<^verbatim>\<open>H5private.h\<close>).
  \<open>rw_done\<close> is the block after the label \<^verbatim>\<open>done\<close>.
\<close>

record env =
  cudaPointerGetAttributes :: cuda_runtime
  attributes0 :: cudaPointerAttributes
  H5_POSIX_MAX_IO_BYTES :: nat

definition rw_done :: "herr_t \<Rightarrow> H5FD_gds_t \<Rightarrow> H5FD_gds_t" where
  "rw_done ret_value file =
     (if ret_value < 0 then file\<lparr>pos := HADDR_UNDEF, op := OP_UNKNOWN\<rparr> else file)"

definition H5FD_gds_read ::
  "env \<Rightarrow> sys \<Rightarrow> H5FD_gds_t \<Rightarrow> haddr_t \<Rightarrow> 64 word \<Rightarrow> 64 word \<Rightarrow> byte list
     \<Rightarrow> (herr_t \<times> H5FD_gds_t \<times> sys \<times> byte list) outcome" where
  "H5FD_gds_read e w file addr sz ptr buf =
     (if \<not> H5F_addr_defined addr then Returned (FAIL, rw_done FAIL file, w, buf)
      else if REGION_OVERFLOW addr sz then Returned (FAIL, rw_done FAIL file, w, buf)
      else if is_device_pointer (cudaPointerGetAttributes e) (attributes0 e) ptr \<noteq> 0 then
        (case cuFileBufRegister w sz of
           (ok, w1) \<Rightarrow>
             if \<not> ok
             then Returned (herr_of_ptr NULL, rw_done (herr_of_ptr NULL) file, w1, buf)
             else
               (case gds_read_transfer w1 file addr sz buf of
                  Aborted \<Rightarrow> Aborted
                | Returned (w2, buf2) \<Rightarrow>
                    (case cuFileBufDeregister w2 of
                       (ok2, w3) \<Rightarrow>
                         if \<not> ok2
                         then Returned (herr_of_ptr NULL, rw_done (herr_of_ptr NULL) file, w3, buf2)
                         else Returned (SUCCEED, rw_done SUCCEED file, w3, buf2))))
      else
        (case read_loop (H5_POSIX_MAX_IO_BYTES e) w (fd file) addr addr (unat sz) buf 0 of
           (ok, addr1, w1, buf1) \<Rightarrow>
             if \<not> ok then Returned (FAIL, rw_done FAIL file, w1, buf1)
             else Returned (SUCCEED, rw_done SUCCEED (file\<lparr>pos := addr1, op := OP_READ\<rparr>),
                            w1, buf1)))"

definition H5FD_gds_write ::
  "env \<Rightarrow> sys \<Rightarrow> H5FD_gds_t \<Rightarrow> haddr_t \<Rightarrow> 64 word \<Rightarrow> 64 word \<Rightarrow> byte list
     \<Rightarrow> (herr_t \<times> H5FD_gds_t \<times> sys) outcome" where
  "H5FD_gds_write e w file addr sz ptr buf =
     (if \<not> H5F_addr_defined addr then Returned (FAIL, rw_done FAIL file, w)
      else if REGION_OVERFLOW addr sz then Returned (FAIL, rw_done FAIL file, w)
      else if is_device_pointer (cudaPointerGetAttributes e) (attributes0 e) ptr \<noteq> 0 then
        (case cuFileBufRegister w sz of
           (ok, w1) \<Rightarrow>
             if \<not> ok
             then Returned (herr_of_ptr NULL, rw_done (herr_of_ptr NULL) file, w1)
             else
               (case gds_write_transfer w1 file addr sz buf of
                  Aborted \<Rightarrow> Aborted
                | Returned w2 \<Rightarrow>
                    (case cuFileBufDeregister w2 of
                       (ok2, w3) \<Rightarrow>
                         if \<not> ok2
                         then Returned (herr_of_ptr NULL, rw_done (herr_of_ptr NULL) file, w3)
                         else Returned (SUCCEED, rw_done SUCCEED file, w3))))
      else
        (case write_loop (H5_POSIX_MAX_IO_BYTES e) w (fd file) addr addr (unat sz) buf of
           Aborted \<Rightarrow> Aborted
         | Returned (ok, addr1, w1) \<Rightarrow>
             if \<not> ok then Returned (FAIL, rw_done FAIL file, w1)
             else
               (let file1 = file\<lparr>pos := addr1, op := OP_WRITE\<rparr>;
                    file2 = (if eof file1 < pos file1 then file1\<lparr>eof := pos file1\<rparr>
                             else file1)
                in Returned (SUCCEED, rw_done SUCCEED file2, w1))))"

subsection \<open>Example states\<close>

text \<open>A handle as \<^verbatim>\<open>H5FD_gds_open\<close> leaves it on an empty file, a world in which no call
  is disturbed, and two runtimes: one that reports no device address for any pointer
  and one that reports every pointer as its own device address.\<close>

definition file0 :: H5FD_gds_t where
  "file0 = \<lparr>fd = 3, direct_fd = 4, num_io_threads = 0, io_block_size = 8388608,
            eoa = 0, eof = 0, pos = HADDR_UNDEF, op = OP_UNKNOWN, fam_to_single = False\<rparr>"

definition sys0 :: sys where
  "sys0 = \<lparr>file_bytes = [], io_script = [], cu_script = [], ftruncate_ok = True,
           buf_register_ok = True, buf_deregister_ok = True, driver_close_ok = True,
           close_fails = [], calls = []\<rparr>"

definition env_host :: env where
  "env_host = \<lparr>cudaPointerGetAttributes = (\<lambda>ptr a. (0, a\<lparr>devicePointer := NULL\<rparr>)),
               attributes0 = \<lparr>devicePointer = NULL\<rparr>,
               H5_POSIX_MAX_IO_BYTES = 2147483647\<rparr>"

definition env_dev :: env where
  "env_dev = \<lparr>cudaPointerGetAttributes = (\<lambda>ptr a. (0, a\<lparr>devicePointer := ptr\<rparr>)),
              attributes0 = \<lparr>devicePointer = NULL\<rparr>,
              H5_POSIX_MAX_IO_BYTES = 2147483647\<rparr>"

declare read_thread_fn.simps [simp del] write_thread_fn.simps [simp del]
  pread_retry.simps [simp del] pwrite_retry.simps [simp del]
  read_loop.simps [simp del] write_loop.simps [simp del]

section \<open>Properties\<close>

subsection \<open>Signed and unsigned readings of a word\<close>

lemma sint_nonneg_uint:
  fixes v :: "'a::len word"
  assumes "0 \<le> sint v"
  shows "sint v = uint v"
proof -
  have "sint v < 2 ^ (LENGTH('a) - 1)"
    by (rule sint_lt)
  also have "(2::int) ^ (LENGTH('a) - 1) \<le> 2 ^ LENGTH('a)"
    by (rule power_increasing) simp_all
  finally have "take_bit LENGTH('a) (sint v) = sint v"
    using assms by (simp add: take_bit_int_eq_self)
  then show ?thesis
    by (simp add: uint_sint)
qed

lemma sint_nonneg_unat: "0 \<le> sint (v :: 'a::len word) \<Longrightarrow> nat (sint v) = unat v"
  by (simp add: sint_nonneg_uint)

lemma uint_small_sint:
  fixes v :: "'a::len word"
  assumes "uint v < 2 ^ (LENGTH('a) - 1)"
  shows "sint v = uint v"
proof -
  have "- (2 ^ (LENGTH('a) - 1)) \<le> uint v"
    by (rule order_trans [of _ 0]) simp_all
  then show ?thesis
    using assms by (simp add: sint_uint signed_take_bit_int_eq_self)
qed

subsection \<open>Truncate\<close>

text \<open>
  C10. When \<open>eoa\<close> equals \<open>eof\<close>, truncate returns success and changes nothing: the
  handle it returns is the handle it was given, with \<open>eof\<close>, \<open>pos\<close> and \<open>op\<close> as they
  were, and the world is the world it was given, so the log of calls has no new entry:
  no filesystem call was made.
\<close>

theorem truncate_noop:
  "eoa file = eof file \<Longrightarrow> H5FD_gds_truncate w file = (SUCCEED, file, w)"
  by (simp add: H5FD_gds_truncate_def H5F_addr_eq_def)

theorem truncate_noop_witness:
  "eoa (file0\<lparr>eoa := 8, eof := 8, pos := 8, op := OP_READ\<rparr>)
     = eof (file0\<lparr>eoa := 8, eof := 8, pos := 8, op := OP_READ\<rparr>)
   \<and> H5FD_gds_truncate sys0 (file0\<lparr>eoa := 8, eof := 8, pos := 8, op := OP_READ\<rparr>)
     = (SUCCEED, file0\<lparr>eoa := 8, eof := 8, pos := 8, op := OP_READ\<rparr>, sys0)"
  using truncate_noop [of "file0\<lparr>eoa := 8, eof := 8, pos := 8, op := OP_READ\<rparr>" sys0]
  by simp

text \<open>
  C6. After \<open>H5FD_gds_set_eoa file v\<close>, a truncate that returns success leaves a handle
  whose physical end and allocated end are both \<open>v\<close>, for every \<open>v\<close>. When \<open>v\<close> differs
  from the physical end before, exactly one \<^verbatim>\<open>ftruncate\<close> call was made, with length
  \<open>v\<close>, the file has exactly \<open>v\<close> bytes (its old bytes cut at \<open>v\<close>, or followed by zero
  bytes up to \<open>v\<close>), and \<open>pos\<close> and \<open>op\<close> are invalidated.
\<close>

theorem set_eoa_truncate:
  assumes "H5FD_gds_truncate w (snd (H5FD_gds_set_eoa file v)) = (SUCCEED, file2, w2)"
  shows "H5FD_gds_get_eof file2 = v \<and> H5FD_gds_get_eoa file2 = v \<and>
    (v \<noteq> eof file \<longrightarrow>
       calls w2 = calls w @ [SC_ftruncate (fd file) v] \<and>
       file_bytes w2 = resize (unat v) (file_bytes w) \<and> length (file_bytes w2) = unat v \<and>
       pos file2 = HADDR_UNDEF \<and> op file2 = OP_UNKNOWN)"
  using assms
  by (auto simp: H5FD_gds_truncate_def H5FD_gds_set_eoa_def H5FD_gds_get_eof_def
      H5FD_gds_get_eoa_def H5F_addr_eq_def HDftruncate_def log_call_def Let_def resize_def
      SUCCEED_def FAIL_def sint_nonneg_unat split: if_splits)

theorem set_eoa_truncate_witness:
  "H5FD_gds_truncate (sys0\<lparr>file_bytes := [1, 2, 3, 4]\<rparr>)
      (snd (H5FD_gds_set_eoa (file0\<lparr>eoa := 4, eof := 4\<rparr>) 8))
     = (SUCCEED,
        file0\<lparr>eoa := 8, eof := 8\<rparr>,
        sys0\<lparr>file_bytes := [1, 2, 3, 4, 0, 0, 0, 0], calls := [SC_ftruncate 3 8]\<rparr>)
   \<and> H5FD_gds_get_eof (file0\<lparr>eoa := 8, eof := 8\<rparr>) = 8
   \<and> H5FD_gds_truncate (sys0\<lparr>file_bytes := [1, 2, 3, 4]\<rparr>)
      (snd (H5FD_gds_set_eoa (file0\<lparr>eoa := 4, eof := 4, pos := 4, op := OP_WRITE\<rparr>) 2))
     = (SUCCEED,
        file0\<lparr>eoa := 2, eof := 2\<rparr>,
        sys0\<lparr>file_bytes := [1, 2], calls := [SC_ftruncate 3 2]\<rparr>)
   \<and> H5FD_gds_get_eof (file0\<lparr>eoa := 2, eof := 2\<rparr>) = 2"
proof -
  have grow: "H5FD_gds_truncate (sys0\<lparr>file_bytes := [1, 2, 3, 4]\<rparr>)
      (snd (H5FD_gds_set_eoa (file0\<lparr>eoa := 4, eof := 4\<rparr>) 8))
     = (SUCCEED,
        file0\<lparr>eoa := 8, eof := 8\<rparr>,
        sys0\<lparr>file_bytes := [1, 2, 3, 4, 0, 0, 0, 0], calls := [SC_ftruncate 3 8]\<rparr>)"
    by code_simp
  have shrink: "H5FD_gds_truncate (sys0\<lparr>file_bytes := [1, 2, 3, 4]\<rparr>)
      (snd (H5FD_gds_set_eoa (file0\<lparr>eoa := 4, eof := 4, pos := 4, op := OP_WRITE\<rparr>) 2))
     = (SUCCEED,
        file0\<lparr>eoa := 2, eof := 2\<rparr>,
        sys0\<lparr>file_bytes := [1, 2], calls := [SC_ftruncate 3 2]\<rparr>)"
    by code_simp
  from set_eoa_truncate [OF grow] set_eoa_truncate [OF shrink] grow shrink
  show ?thesis
    by simp
qed

subsection \<open>Close\<close>

text \<open>
  C8, as stated, fails: with a direct descriptor whose close fails, the ordinary
  descriptor is never closed and the handle is never released; the jump to \<^verbatim>\<open>done\<close>
  skips both.
\<close>

theorem close_direct_fd_failure_counterexample:
  "direct_fd file0 \<in> set (close_fails (sys0\<lparr>close_fails := [4]\<rparr>))
   \<and> fd file0 \<notin> set (close_fails (sys0\<lparr>close_fails := [4]\<rparr>))
   \<and> fst (H5FD_gds_close (sys0\<lparr>close_fails := [4]\<rparr>) False file0) = FAIL
   \<and> close_steps (sys0\<lparr>close_fails := [4]\<rparr>) False file0
       = [SC_cuFileHandleDeregister, SC_cuFileDriverClose, SC_close 4]
   \<and> SC_close (fd file0) \<notin> set (close_steps (sys0\<lparr>close_fails := [4]\<rparr>) False file0)
   \<and> SC_H5FL_FREE \<notin> set (close_steps (sys0\<lparr>close_fails := [4]\<rparr>) False file0)"
  by code_simp

text \<open>
  C8, amended. Close is fail-fast. The accelerator handle is always deregistered first,
  and nothing observes how that went. If the process-wide driver close is due and fails,
  no other step is made. Otherwise, if closing the direct descriptor fails, close reports
  failure and neither closes the ordinary descriptor nor releases the handle; if the
  direct descriptor closes and closing the ordinary descriptor fails, close reports
  failure and does not release the handle; and if both close, every step is made, in
  order, and close reports success.
\<close>

theorem close_fail_fast:
  "hd (close_steps w c file) = SC_cuFileHandleDeregister
   \<and> (if \<not> c \<and> \<not> driver_close_ok w then
        close_steps w c file = [SC_cuFileHandleDeregister, SC_cuFileDriverClose]
      else if direct_fd file \<in> set (close_fails w) then
        fst (H5FD_gds_close w c file) = FAIL
        \<and> last (close_steps w c file) = SC_close (direct_fd file)
        \<and> SC_close (fd file) \<notin> set (butlast (close_steps w c file))
        \<and> SC_H5FL_FREE \<notin> set (close_steps w c file)
      else if fd file \<in> set (close_fails w) then
        fst (H5FD_gds_close w c file) = FAIL
        \<and> SC_close (direct_fd file) \<in> set (close_steps w c file)
        \<and> last (close_steps w c file) = SC_close (fd file)
        \<and> SC_H5FL_FREE \<notin> set (close_steps w c file)
      else
        fst (H5FD_gds_close w c file) = SUCCEED
        \<and> close_steps w c file
            = SC_cuFileHandleDeregister # (if c then [] else [SC_cuFileDriverClose])
              @ [SC_close (direct_fd file), SC_free_td, SC_free_threads, SC_close (fd file),
                 SC_H5FL_FREE])"
  by (simp add: close_steps_def H5FD_gds_close_def HDclose_def cuFileDriverClose_def
      log_call_def Let_def SUCCEED_def FAIL_def)

theorem close_fail_fast_witness:
  "close_steps (sys0\<lparr>close_fails := [3]\<rparr>) False file0
     = [SC_cuFileHandleDeregister, SC_cuFileDriverClose, SC_close 4, SC_free_td,
        SC_free_threads, SC_close 3]
   \<and> fst (H5FD_gds_close (sys0\<lparr>close_fails := [3]\<rparr>) False file0) = FAIL
   \<and> close_steps sys0 True file0
     = [SC_cuFileHandleDeregister, SC_close 4, SC_free_td, SC_free_threads, SC_close 3,
        SC_H5FL_FREE]
   \<and> fst (H5FD_gds_close sys0 True file0) = SUCCEED"
  using close_fail_fast [of "sys0\<lparr>close_fails := [3]\<rparr>" False file0]
    close_fail_fast [of sys0 True file0]
  by (simp add: sys0_def file0_def close_steps_def H5FD_gds_close_def HDclose_def
      cuFileDriverClose_def log_call_def Let_def SUCCEED_def FAIL_def)

subsection \<open>The buffer classifier\<close>

text \<open>
  C9. The claim asks that \<^verbatim>\<open>is_device_pointer\<close> treats an error of the runtime query as
  "not device resident". The code drops the status of \<^verbatim>\<open>cudaPointerGetAttributes\<close> and
  tests the \<open>devicePointer\<close> field of a structure that it never initialised. For a
  runtime that answers the query with an error and leaves the structure as it found it,
  the answer is whatever the structure held before the call: with a zeroed structure it
  is 0, as the claim says, and with a stale non-null \<open>devicePointer\<close> it is 1, device
  resident, where the claim says 0.
\<close>

theorem is_device_pointer_query_error_stale:
  "fst ((\<lambda>ptr a. (1, a)) (4096 :: 64 word) \<lparr>devicePointer = 3735928559\<rparr>) \<noteq> (0 :: int)
   \<and> is_device_pointer (\<lambda>ptr a. (1, a)) \<lparr>devicePointer = 3735928559\<rparr> 4096 = 1
   \<and> is_device_pointer (\<lambda>ptr a. (1, a)) \<lparr>devicePointer = NULL\<rparr> 4096 = 0"
  by (simp add: is_device_pointer_def NULL_def)

text \<open>The parts of the claim that the code keeps: the classifier always answers, with 0
  or 1, and answers 1 exactly when the structure holds a non-null \<open>devicePointer\<close> after
  the query.\<close>

lemma is_device_pointer_answer:
  "(is_device_pointer rt a0 ptr = 1 \<or> is_device_pointer rt a0 ptr = 0)
   \<and> (is_device_pointer rt a0 ptr = 1 \<longleftrightarrow> devicePointer (snd (rt ptr a0)) \<noteq> NULL)"
  by (simp add: is_device_pointer_def)

subsection \<open>Read and write: the block after \<open>done\<close>\<close>

lemma read_done_shape:
  "case H5FD_gds_read e w file addr sz ptr buf of
     Aborted \<Rightarrow> True
   | Returned (r, file', w', buf') \<Rightarrow>
       (r < 0 \<longrightarrow> pos file' = HADDR_UNDEF \<and> op file' = OP_UNKNOWN)"
  by (simp add: H5FD_gds_read_def rw_done_def split: prod.split outcome.split)

lemma write_done_shape:
  "case H5FD_gds_write e w file addr sz ptr src of
     Aborted \<Rightarrow> True
   | Returned (r, file', w') \<Rightarrow>
       (r < 0 \<longrightarrow> pos file' = HADDR_UNDEF \<and> op file' = OP_UNKNOWN)"
  by (simp add: H5FD_gds_write_def rw_done_def Let_def split: prod.split outcome.split)

text \<open>
  C4. Whenever a read or a write returns failure, that is a negative value, the handle it
  leaves has \<open>pos = HADDR_UNDEF\<close> and \<open>op = OP_UNKNOWN\<close>. This holds on every path: the
  argument checks, the accelerator path and the host path.
\<close>

theorem rw_failure_invalidates:
  "(H5FD_gds_read e w f addr sz ptr buf = Returned (r, file', w', buf') \<and> r < 0
      \<longrightarrow> pos file' = HADDR_UNDEF \<and> op file' = OP_UNKNOWN)
   \<and> (H5FD_gds_write e w f addr sz ptr src = Returned (r2, file2, w2) \<and> r2 < 0
      \<longrightarrow> pos file2 = HADDR_UNDEF \<and> op file2 = OP_UNKNOWN)"
  using read_done_shape [of e w f addr sz ptr buf]
    write_done_shape [of e w f addr sz ptr src]
  by auto

lemma ex_read_fail:
  "H5FD_gds_read env_host sys0 (file0\<lparr>pos := 16, op := OP_READ\<rparr>) HADDR_UNDEF 4 4096 [9, 9, 9, 9]
     = Returned (FAIL, file0, sys0, [9, 9, 9, 9])"
  by (simp add: H5FD_gds_read_def H5F_addr_defined_def rw_done_def FAIL_def file0_def)

lemma region_ok_small: "\<not> REGION_OVERFLOW 0 4"
  by (simp add: REGION_OVERFLOW_def ADDR_OVERFLOW_def SIZE_OVERFLOW_def MAXADDR_def HADDR_UNDEF_def)

lemma host_ptr: "is_device_pointer (cudaPointerGetAttributes env_host) (attributes0 env_host) p = 0"
  by (simp add: is_device_pointer_def env_host_def)

lemma dev_ptr: "p \<noteq> 0 \<Longrightarrow> is_device_pointer (cudaPointerGetAttributes env_dev) (attributes0 env_dev) p = 1"
  by (simp add: is_device_pointer_def env_dev_def NULL_def)


lemma max_io_host: "H5_POSIX_MAX_IO_BYTES env_host = 2147483647"
  by (simp add: env_host_def)

lemma ex_write_fail:
  "H5FD_gds_write env_host (sys0\<lparr>io_script := [EV_EINTR, EV_ERROR]\<rparr>)
      (file0\<lparr>pos := 0, op := OP_WRITE\<rparr>) 0 4 4096 [1, 2, 3, 4]
     = Returned (FAIL, file0,
         sys0\<lparr>calls := [SC_pwrite 3 4 0, SC_pwrite 3 4 0, SC_lseek 3]\<rparr>)"
  by (simp add: H5FD_gds_write_def H5F_addr_defined_def region_ok_small host_ptr rw_done_def
      write_loop.simps pwrite_retry.simps HDpwrite_def log_call_def Let_def max_io_host
      FAIL_def file0_def sys0_def HADDR_UNDEF_def)

theorem rw_failure_invalidates_witness:
  "H5FD_gds_read env_host sys0 (file0\<lparr>pos := 16, op := OP_READ\<rparr>) HADDR_UNDEF 4 4096
      [9, 9, 9, 9]
     = Returned (FAIL, file0, sys0, [9, 9, 9, 9])
   \<and> H5FD_gds_write env_host (sys0\<lparr>io_script := [EV_EINTR, EV_ERROR]\<rparr>)
      (file0\<lparr>pos := 0, op := OP_WRITE\<rparr>) 0 4 4096 [1, 2, 3, 4]
     = Returned (FAIL, file0,
         sys0\<lparr>calls := [SC_pwrite 3 4 0, SC_pwrite 3 4 0, SC_lseek 3]\<rparr>)
   \<and> FAIL < 0 \<and> pos file0 = HADDR_UNDEF \<and> op file0 = OP_UNKNOWN"
  using rw_failure_invalidates
    [where e = env_host and w = sys0 and f = "file0\<lparr>pos := 16, op := OP_READ\<rparr>"
      and addr = HADDR_UNDEF and sz = 4 and ptr = 4096 and buf = "[9, 9, 9, 9]"
      and r = FAIL and file' = file0 and w' = sys0 and buf' = "[9, 9, 9, 9]"]
    rw_failure_invalidates
    [where e = env_host and w = "sys0\<lparr>io_script := [EV_EINTR, EV_ERROR]\<rparr>"
      and f = "file0\<lparr>pos := 0, op := OP_WRITE\<rparr>"
      and addr = 0 and sz = 4 and ptr = 4096 and src = "[1, 2, 3, 4]"
      and ?r2.0 = FAIL and ?file2.0 = file0
      and ?w2.0 = "sys0\<lparr>calls := [SC_pwrite 3 4 0, SC_pwrite 3 4 0, SC_lseek 3]\<rparr>"]
    ex_read_fail ex_write_fail
  by (simp add: FAIL_def)

lemma herr_of_ptr_NULL: "herr_of_ptr NULL = 0"
  by (simp add: herr_of_ptr_def NULL_def)

lemma read_device_shape:
  "is_device_pointer (cudaPointerGetAttributes e) (attributes0 e) ptr \<noteq> 0 \<Longrightarrow>
   H5F_addr_defined addr \<Longrightarrow> \<not> REGION_OVERFLOW addr sz \<Longrightarrow>
   (case H5FD_gds_read e w f addr sz ptr buf of
      Aborted \<Rightarrow> True
    | Returned (r, f', w', buf') \<Rightarrow> r = SUCCEED \<and> f' = f)"
  by (simp add: H5FD_gds_read_def rw_done_def herr_of_ptr_NULL SUCCEED_def
      split: prod.split outcome.split)

lemma write_device_shape:
  "is_device_pointer (cudaPointerGetAttributes e) (attributes0 e) ptr \<noteq> 0 \<Longrightarrow>
   H5F_addr_defined addr \<Longrightarrow> \<not> REGION_OVERFLOW addr sz \<Longrightarrow>
   (case H5FD_gds_write e w f addr sz ptr buf of
      Aborted \<Rightarrow> True
    | Returned (r, f', w') \<Rightarrow> r = SUCCEED \<and> f' = f)"
  by (simp add: H5FD_gds_write_def rw_done_def herr_of_ptr_NULL SUCCEED_def
      split: prod.split outcome.split)

text \<open>
  C2. The claim asks that a read or write of a device-resident buffer returns failure
  when \<^verbatim>\<open>cuFileBufRegister\<close> or \<^verbatim>\<open>cuFileBufDeregister\<close> fails. The code leaves both
  failures through \<^verbatim>\<open>HGOTO_ERROR(H5E_INTERNAL, H5E_SYSTEM, NULL, ...)\<close>, which stores the
  null pointer in the \<^verbatim>\<open>herr_t\<close> \<^verbatim>\<open>ret_value\<close>: the call returns 0, the value of
  \<^verbatim>\<open>SUCCEED\<close>, and the handle is left as it was. With a failing registration both
  operations return \<open>SUCCEED\<close> after that one call; and whatever a read or write on the
  accelerator path returns, it is \<open>SUCCEED\<close>.
\<close>

theorem buf_register_failure_returns_success:
  assumes "is_device_pointer (cudaPointerGetAttributes e) (attributes0 e) ptr \<noteq> 0"
    and "H5F_addr_defined addr" and "\<not> REGION_OVERFLOW addr sz"
  shows "(\<not> buf_register_ok w \<longrightarrow>
            H5FD_gds_read e w f addr sz ptr buf
              = Returned (SUCCEED, f, log_call (SC_cuFileBufRegister sz) w, buf)
          \<and> H5FD_gds_write e w f addr sz ptr buf
              = Returned (SUCCEED, f, log_call (SC_cuFileBufRegister sz) w))
       \<and> (H5FD_gds_read e w f addr sz ptr buf = Returned (r, f', w', buf')
            \<longrightarrow> r = SUCCEED \<and> f' = f)
       \<and> (H5FD_gds_write e w f addr sz ptr buf = Returned (r2, f2, w2)
            \<longrightarrow> r2 = SUCCEED \<and> f2 = f)"
proof -
  have reg: "\<not> buf_register_ok w \<longrightarrow>
            H5FD_gds_read e w f addr sz ptr buf
              = Returned (SUCCEED, f, log_call (SC_cuFileBufRegister sz) w, buf)
          \<and> H5FD_gds_write e w f addr sz ptr buf
              = Returned (SUCCEED, f, log_call (SC_cuFileBufRegister sz) w)"
    using assms
    by (simp add: H5FD_gds_read_def H5FD_gds_write_def cuFileBufRegister_def rw_done_def
        herr_of_ptr_NULL SUCCEED_def)
  show ?thesis
    using reg read_device_shape [OF assms, where w = w and f = f and buf = buf]
      write_device_shape [OF assms, where w = w and f = f and buf = buf]
    by auto
qed

lemma dev_ptr_4096:
  "is_device_pointer (cudaPointerGetAttributes env_dev) (attributes0 env_dev) 4096 \<noteq> 0"
  by (simp add: dev_ptr)

text \<open>A deregistration that fails after the transfer: the write has reached the file and
  the call returns \<open>SUCCEED\<close>.\<close>

lemma ex_write_deregister_fail:
  "H5FD_gds_write env_dev (sys0\<lparr>buf_deregister_ok := False\<rparr>) file0 0 4 4096 [1, 2, 3, 4]
     = Returned (SUCCEED, file0,
         sys0\<lparr>file_bytes := [1, 2, 3, 4], buf_deregister_ok := False,
              calls := [SC_cuFileBufRegister 4, SC_cuFileWrite 4 0 0, SC_cuFileBufDeregister]\<rparr>)"
  by (simp add: H5FD_gds_write_def H5F_addr_defined_def region_ok_small dev_ptr rw_done_def
      gds_write_transfer_def cuFileWrite_def cu_grant_def cuFileBufRegister_def
      cuFileBufDeregister_def file_write_def log_call_def Let_def herr_of_ptr_NULL
      SUCCEED_def file0_def sys0_def HADDR_UNDEF_def)

theorem buf_register_failure_returns_success_witness:
  "H5FD_gds_read env_dev (sys0\<lparr>buf_register_ok := False\<rparr>) file0 0 4 4096 [9, 9, 9, 9]
     = Returned (SUCCEED, file0,
         log_call (SC_cuFileBufRegister 4) (sys0\<lparr>buf_register_ok := False\<rparr>), [9, 9, 9, 9])
   \<and> H5FD_gds_write env_dev (sys0\<lparr>buf_register_ok := False\<rparr>) file0 0 4 4096 [9, 9, 9, 9]
     = Returned (SUCCEED, file0,
         log_call (SC_cuFileBufRegister 4) (sys0\<lparr>buf_register_ok := False\<rparr>))
   \<and> \<not> SUCCEED < 0"
  using buf_register_failure_returns_success
    [OF dev_ptr_4096, where addr = 0 and sz = 4 and w = "sys0\<lparr>buf_register_ok := False\<rparr>"
      and f = file0 and buf = "[9, 9, 9, 9]"]
  by (simp add: H5F_addr_defined_def HADDR_UNDEF_def region_ok_small sys0_def SUCCEED_def)

text \<open>
  C1. The claim describes the partition that covers the whole request. The code computes
  the chunk length from \<^verbatim>\<open>(unsigned)size\<close>, the low 32 bits of the 64-bit size, while
  the page count just above it is computed from the whole size. For a request of
  \<open>2 ^ 32\<close> bytes and one thread the effective thread count is 1, as the claim says,
  but \<^verbatim>\<open>io_chunk\<close> and \<^verbatim>\<open>io_chunk_rem\<close> are 0: the one worker gets length 0 where
  the claim gives it \<open>2 ^ 32\<close>, the read registers and deregisters the buffer, makes
  no transfer call at all, and returns \<open>SUCCEED\<close> with the buffer as it was.
\<close>

theorem partition_size_4GiB:
  "effective_io_threads 4294967296 1 = 1
   \<and> io_chunk 4294967296 1 = 0 \<and> io_chunk_rem 4294967296 1 = 0
   \<and> partition_td (file0\<lparr>num_io_threads := 1\<rparr>) 0 4294967296
       = [\<lparr>offset = 0, devPtr_offset = 0, block_size = 8388608, size_td = 0\<rparr>]
   \<and> H5FD_gds_read env_dev (sys0\<lparr>file_bytes := data\<rparr>) (file0\<lparr>num_io_threads := 1\<rparr>)
         0 4294967296 4096 buf
       = Returned (SUCCEED, file0\<lparr>num_io_threads := 1\<rparr>,
           sys0\<lparr>file_bytes := data,
                calls := [SC_cuFileBufRegister 4294967296, SC_cuFileBufDeregister]\<rparr>, buf)"
proof -
  have part: "partition_td (file0\<lparr>num_io_threads := 1\<rparr>) 0 4294967296
       = [\<lparr>offset = 0, devPtr_offset = 0, block_size = 8388608, size_td = 0\<rparr>]"
    by (simp add: effective_io_threads_def io_chunk_def io_chunk_rem_def partition_td_def
        fill_td_def file0_def)
  have region: "\<not> REGION_OVERFLOW 0 4294967296"
    by (simp add: REGION_OVERFLOW_def ADDR_OVERFLOW_def SIZE_OVERFLOW_def MAXADDR_def
        HADDR_UNDEF_def)
  have threads: "0 < sint (num_io_threads (file0\<lparr>num_io_threads := 1\<rparr>))"
    by simp
  have "H5FD_gds_read env_dev (sys0\<lparr>file_bytes := data\<rparr>) (file0\<lparr>num_io_threads := 1\<rparr>)
         0 4294967296 4096 buf
       = Returned (SUCCEED, file0\<lparr>num_io_threads := 1\<rparr>,
           sys0\<lparr>file_bytes := data,
                calls := [SC_cuFileBufRegister 4294967296, SC_cuFileBufDeregister]\<rparr>, buf)"
    by (simp add: H5FD_gds_read_def H5F_addr_defined_def region dev_ptr rw_done_def
        gds_read_transfer_def threads part read_thread_fn.simps cuFileBufRegister_def
        cuFileBufDeregister_def log_call_def SUCCEED_def HADDR_UNDEF_def sys0_def)
  with part show ?thesis
    by (simp add: effective_io_threads_def io_chunk_def io_chunk_rem_def)
qed

subsection \<open>The overflow check\<close>

lemma MAXADDR_mask: "MAXADDR = mask 63"
  by (simp add: MAXADDR_def mask_eq_exp_minus_1)

lemma sint_nonneg_iff: "0 \<le> sint (x :: 64 word) \<longleftrightarrow> unat x < 2 ^ 63"
proof
  assume nonneg: "0 \<le> sint x"
  have "sint x < 2 ^ (LENGTH(64) - 1)"
    by (rule sint_lt)
  with nonneg have "uint x < 2 ^ 63"
    by (simp add: sint_nonneg_uint)
  then have "int (unat x) < int (2 ^ 63)"
    by simp
  then show "unat x < 2 ^ 63"
    by (simp only: of_nat_less_iff)
next
  assume "unat x < 2 ^ 63"
  then have "int (unat x) < int (2 ^ 63)"
    by (simp only: of_nat_less_iff)
  then have "uint x < 2 ^ (LENGTH(64) - 1)"
    by simp
  then have "sint x = uint x"
    by (rule uint_small_sint)
  then show "0 \<le> sint x"
    by simp
qed

lemma no_high_bit_nonneg:
  assumes "(A :: 64 word) AND NOT MAXADDR = 0"
  shows "0 \<le> sint A"
proof -
  have "bit (A AND NOT MAXADDR) 63 = bit (0 :: 64 word) 63"
    using assms by simp
  then have "\<not> bit A 63"
    by (simp add: MAXADDR_mask bit_and_iff bit_not_iff bit_mask_iff)
  then have "\<not> bit (uint A) 63"
    by (simp add: bit_uint_iff)
  then have "0 \<le> signed_take_bit 63 (uint A)"
    by simp
  then show ?thesis
    by (simp add: sint_uint)
qed

lemma region_bounds:
  assumes "\<not> REGION_OVERFLOW A Z"
  shows "unat A + unat Z < 2 ^ 63"
proof -
  from assms have A: "0 \<le> sint A" and Z: "0 \<le> sint Z" and le: "sint A \<le> sint (A + Z)"
    by (simp_all add: REGION_OVERFLOW_def ADDR_OVERFLOW_def SIZE_OVERFLOW_def
        no_high_bit_nonneg)
  from A Z have a: "unat A < 2 ^ 63" and z: "unat Z < 2 ^ 63"
    by (simp_all add: sint_nonneg_iff)
  then have "unat A + unat Z < 2 ^ LENGTH(64)"
    by simp
  then have sum: "unat (A + Z) = unat A + unat Z"
    by (simp only: unat_add_lem)
  from A le have "0 \<le> sint (A + Z)"
    by simp
  then have "unat (A + Z) < 2 ^ 63"
    by (simp add: sint_nonneg_iff)
  with sum show ?thesis
    by simp
qed

subsection \<open>Bytes of files and buffers\<close>

lemma file_read_split:
  assumes "k \<le> n"
  shows "file_read data a n
    = file_read data a k
      @ file_read data (a + length (file_read data a k)) (n - length (file_read data a k))"
proof -
  define xs where "xs = drop a data"
  define l where "l = length (take k xs)"
  have l: "l = min k (length xs)"
    by (simp add: l_def min.commute)
  then have "l \<le> n"
    using assms by simp
  then have "take n xs = take (l + (n - l)) xs"
    by simp
  also have "\<dots> = take l xs @ take (n - l) (drop l xs)"
    by (simp only: take_add)
  also have "take l xs = take k xs"
    by (simp add: l min_def)
  finally show ?thesis
    by (simp add: file_read_def xs_def l_def add.commute)
qed

lemma file_read_empty:
  assumes "file_read data a k = []" and "0 < k"
  shows "file_read data a n = []"
  using assms by (simp add: file_read_def)

lemma file_read_length_le: "length (file_read data a n) \<le> n"
  by (simp add: file_read_def)

lemma buf_store_length:
  "p + length bs \<le> length buf \<Longrightarrow> length (buf_store buf p bs) = length buf"
  by (simp add: buf_store_def)

lemma buf_store_take:
  "p + length bs \<le> length buf \<Longrightarrow> take (p + length bs) (buf_store buf p bs) = take p buf @ bs"
  by (simp add: buf_store_def)

lemma buf_store_drop:
  "p + length bs \<le> n \<Longrightarrow> p + length bs \<le> length buf \<Longrightarrow>
   drop n (buf_store buf p bs) = drop n buf"
  by (simp add: buf_store_def)

lemma unat_plus_of_nat:
  fixes a :: "64 word"
  assumes "unat a + l < 2 ^ 63"
  shows "unat (a + of_nat l) = unat a + l"
proof -
  have l: "l < 2 ^ LENGTH(64)"
    using assms by simp
  then have "unat (of_nat l :: 64 word) = l"
    by (simp add: unat_of_nat)
  moreover have "unat a + unat (of_nat l :: 64 word) < 2 ^ LENGTH(64) \<longleftrightarrow>
      unat (a + of_nat l) = unat a + unat (of_nat l :: 64 word)"
    by (rule unat_add_lem)
  ultimately show ?thesis
    using assms by simp
qed

subsection \<open>The host read loop\<close>

lemma pread_retry_result:
  assumes "io_script w = s" and "0 \<le> sint off"
  shows "\<exists>r w1. pread_retry w d n off = (r, w1) \<and> file_bytes w1 = file_bytes w
      \<and> set (io_script w1) \<subseteq> set (io_script w)
      \<and> (r = IO_ERROR \<and> EV_ERROR \<in> set (io_script w)
         \<or> (\<exists>k. r = IO_DONE (file_read (file_bytes w) (unat off) k) \<and> k \<le> n
                \<and> (0 < n \<longrightarrow> 0 < k)))"
  using assms
proof (induction s arbitrary: w)
  case Nil
  then have "pread_retry w d n off
      = (IO_DONE (file_read (file_bytes w) (unat off) n), log_call (SC_pread d n off) w)"
    by (subst pread_retry.simps) (simp add: HDpread_def Let_def)
  then show ?case
    by (auto simp: log_call_def)
next
  case (Cons ev s)
  let ?w1 = "(log_call (SC_pread d n off) w)\<lparr>io_script := s\<rparr>"
  have fb: "file_bytes ?w1 = file_bytes w" and sc: "io_script ?w1 = s"
    by (simp_all add: log_call_def)
  show ?case
  proof (cases ev)
    case EV_EINTR
    with Cons.prems have step: "pread_retry w d n off = pread_retry ?w1 d n off"
      by (subst pread_retry.simps) (simp add: HDpread_def Let_def)
    from Cons.IH [OF sc Cons.prems(2)] obtain r w2 where
      r: "pread_retry ?w1 d n off = (r, w2)" and f2: "file_bytes w2 = file_bytes ?w1"
      and s2: "set (io_script w2) \<subseteq> set (io_script ?w1)"
      and res: "r = IO_ERROR \<and> EV_ERROR \<in> set (io_script ?w1)
         \<or> (\<exists>k. r = IO_DONE (file_read (file_bytes ?w1) (unat off) k) \<and> k \<le> n
                \<and> (0 < n \<longrightarrow> 0 < k))"
      by blast
    from s2 sc Cons.prems(1) have "set (io_script w2) \<subseteq> set (io_script w)"
      by auto
    moreover from res sc fb Cons.prems(1) have "r = IO_ERROR \<and> EV_ERROR \<in> set (io_script w)
         \<or> (\<exists>k. r = IO_DONE (file_read (file_bytes w) (unat off) k) \<and> k \<le> n
                \<and> (0 < n \<longrightarrow> 0 < k))"
      by auto
    ultimately show ?thesis
      using step r f2 fb by simp
  next
    case EV_ERROR
    with Cons.prems have "pread_retry w d n off = (IO_ERROR, ?w1)"
      by (subst pread_retry.simps) (simp add: HDpread_def Let_def)
    then show ?thesis
      using EV_ERROR Cons.prems(1) fb sc by auto
  next
    case (EV_SHORT c)
    with Cons.prems have "pread_retry w d n off
        = (IO_DONE (file_read (file_bytes w) (unat off) (min n (Suc c))), ?w1)"
      by (subst pread_retry.simps) (simp add: HDpread_def Let_def)
    moreover have "min n (Suc c) \<le> n" and "0 < n \<longrightarrow> 0 < min n (Suc c)"
      by simp_all
    ultimately show ?thesis
      using Cons.prems(1) fb sc by auto
  qed
qed

lemma read_loop_spec:
  assumes max_io: "0 < max_io"
  shows "unat addr + sz < 2 ^ 63 \<Longrightarrow> p + sz \<le> length buf \<Longrightarrow>
     \<exists>ok a1 w1 buf1. read_loop max_io w d addr addr sz buf p = (ok, a1, w1, buf1)
       \<and> file_bytes w1 = file_bytes w
       \<and> (EV_ERROR \<notin> set (io_script w) \<longrightarrow> ok)
       \<and> (ok \<longrightarrow>
            a1 = addr + of_nat (length (file_read (file_bytes w) (unat addr) sz))
            \<and> buf1 = take p buf @ file_read (file_bytes w) (unat addr) sz
                 @ replicate (sz - length (file_read (file_bytes w) (unat addr) sz)) 0
                 @ drop (p + sz) buf)"
proof (induction sz arbitrary: w addr buf p rule: less_induct)
  case (less sz)
  show ?case
  proof (cases "sz = 0")
    case True
    then have "read_loop max_io w d addr addr sz buf p = (True, addr, w, buf)"
      by (subst read_loop.simps) simp
    then show ?thesis
      using True by (auto simp: file_read_def)
  next
    case False
    define n where "n = (if max_io < sz then max_io else sz)"
    have n: "0 < n" "n \<le> sz"
      using max_io False by (simp_all add: n_def)
    have nonneg: "0 \<le> sint addr"
      using less.prems(1) by (simp add: sint_nonneg_iff)
    from pread_retry_result [OF refl nonneg, of w d n] obtain r w1 where
      pr: "pread_retry w d n addr = (r, w1)" and fb: "file_bytes w1 = file_bytes w"
      and sub: "set (io_script w1) \<subseteq> set (io_script w)"
      and res: "r = IO_ERROR \<and> EV_ERROR \<in> set (io_script w)
         \<or> (\<exists>k. r = IO_DONE (file_read (file_bytes w) (unat addr) k) \<and> k \<le> n
                \<and> (0 < n \<longrightarrow> 0 < k))"
      by blast
    from res show ?thesis
    proof
      assume err: "r = IO_ERROR \<and> EV_ERROR \<in> set (io_script w)"
      then have "read_loop max_io w d addr addr sz buf p
          = (False, addr, log_call (SC_lseek d) w1, buf)"
        using False pr by (subst read_loop.simps) (simp add: n_def)
      then show ?thesis
        using fb err by (auto simp: log_call_def)
    next
      assume "\<exists>k. r = IO_DONE (file_read (file_bytes w) (unat addr) k) \<and> k \<le> n
                \<and> (0 < n \<longrightarrow> 0 < k)"
      then obtain k where r: "r = IO_DONE (file_read (file_bytes w) (unat addr) k)"
        and k: "k \<le> n" "0 < k"
        using n by auto
      define bs where "bs = file_read (file_bytes w) (unat addr) k"
      define l where "l = length bs"
      define got where "got = file_read (file_bytes w) (unat addr) sz"
      show ?thesis
      proof (cases "l = 0")
        case True
        then have "bs = []"
          by (simp add: l_def)
        then have got: "got = []"
          unfolding got_def bs_def using k(2) by (rule file_read_empty)
        have "read_loop max_io w d addr addr sz buf p
            = (True, addr, w1, buf_store buf p (replicate sz 0))"
          using False pr r True by (subst read_loop.simps) (simp add: n_def bs_def l_def)
        then show ?thesis
          using fb got by (auto simp: got_def buf_store_def)
      next
        case lpos: False
        have lk: "l \<le> k"
          by (simp add: l_def bs_def file_read_length_le)
        with k n have lsz: "l \<le> sz"
          by simp
        define addr' where "addr' = addr + of_nat l"
        define buf' where "buf' = buf_store buf p bs"
        define got' where "got' = file_read (file_bytes w) (unat addr + l) (sz - l)"
        have step: "read_loop max_io w d addr addr sz buf p
            = read_loop max_io w1 d addr' addr' (sz - l) buf' (p + l)"
          using False pr r lpos
          by (subst read_loop.simps) (simp add: n_def bs_def l_def addr'_def buf'_def)
        have ua: "unat addr' = unat addr + l"
          unfolding addr'_def using less.prems(1) lsz by (intro unat_plus_of_nat) simp
        have fits: "p + length bs \<le> length buf"
          using less.prems(2) lsz by (simp add: l_def)
        have len': "length buf' = length buf"
          unfolding buf'_def using fits by (rule buf_store_length)
        have p1: "unat addr' + (sz - l) < 2 ^ 63"
          using ua less.prems(1) lsz by simp
        have p2: "p + l + (sz - l) \<le> length buf'"
          using len' less.prems(2) lsz by simp
        have "sz - l < sz"
          using lpos False by simp
        from less.IH [OF this p1 p2, of w1] obtain ok a1 w2 buf1 where
          rl: "read_loop max_io w1 d addr' addr' (sz - l) buf' (p + l) = (ok, a1, w2, buf1)"
          and fb2: "file_bytes w2 = file_bytes w1"
          and ok1: "EV_ERROR \<notin> set (io_script w1) \<longrightarrow> ok"
          and val: "ok \<longrightarrow>
            a1 = addr' + of_nat (length (file_read (file_bytes w1) (unat addr') (sz - l)))
            \<and> buf1 = take (p + l) buf' @ file_read (file_bytes w1) (unat addr') (sz - l)
                 @ replicate (sz - l - length (file_read (file_bytes w1) (unat addr') (sz - l))) 0
                 @ drop (p + l + (sz - l)) buf'"
          by blast
        have split: "got = bs @ got'"
          unfolding got_def bs_def got'_def l_def
          using k n by (intro file_read_split) simp
        have tk: "take (p + l) buf' = take p buf @ bs"
          unfolding buf'_def l_def using fits by (rule buf_store_take)
        have dr: "drop (p + l + (sz - l)) buf' = drop (p + sz) buf"
          unfolding buf'_def using fits lsz by (simp add: buf_store_drop l_def)
        have ok2: "EV_ERROR \<notin> set (io_script w) \<longrightarrow> ok"
          using ok1 sub by auto
        have "ok \<longrightarrow> a1 = addr + of_nat (length got)
            \<and> buf1 = take p buf @ got @ replicate (sz - length got) 0 @ drop (p + sz) buf"
        proof
          assume ok
          with val have a1: "a1 = addr' + of_nat (length got')"
            and b1: "buf1 = take (p + l) buf' @ got'
                 @ replicate (sz - l - length got') 0 @ drop (p + l + (sz - l)) buf'"
            by (simp_all add: fb ua got'_def)
          have "length got = l + length got'"
            by (simp add: split l_def)
          then show "a1 = addr + of_nat (length got)
            \<and> buf1 = take p buf @ got @ replicate (sz - length got) 0 @ drop (p + sz) buf"
            using a1 b1 tk dr by (simp add: addr'_def split)
        qed
        then show ?thesis
          using step rl fb2 fb ok2 by (auto simp: got_def)
      qed
    qed
  qed
qed

lemma host_read_result:
  assumes host: "is_device_pointer (cudaPointerGetAttributes e) (attributes0 e) ptr = 0"
    and addr: "H5F_addr_defined addr" and region: "\<not> REGION_OVERFLOW addr sz"
    and max_io: "0 < H5_POSIX_MAX_IO_BYTES e" and fits: "unat sz \<le> length buf"
  shows "\<exists>ok a1 w1 buf1.
      read_loop (H5_POSIX_MAX_IO_BYTES e) w (fd f) addr addr (unat sz) buf 0 = (ok, a1, w1, buf1)
      \<and> H5FD_gds_read e w f addr sz ptr buf
          = (if ok then Returned (SUCCEED, f\<lparr>pos := a1, op := OP_READ\<rparr>, w1, buf1)
             else Returned (FAIL, f\<lparr>pos := HADDR_UNDEF, op := OP_UNKNOWN\<rparr>, w1, buf1))
      \<and> file_bytes w1 = file_bytes w
      \<and> (EV_ERROR \<notin> set (io_script w) \<longrightarrow> ok)
      \<and> (ok \<longrightarrow>
            a1 = addr + of_nat (length (file_read (file_bytes w) (unat addr) (unat sz)))
            \<and> buf1 = file_read (file_bytes w) (unat addr) (unat sz)
                 @ replicate (unat sz - length (file_read (file_bytes w) (unat addr) (unat sz))) 0
                 @ drop (unat sz) buf)"
proof -
  have bound: "unat addr + unat sz < 2 ^ 63"
    using region by (rule region_bounds)
  have fits0: "0 + unat sz \<le> length buf"
    using fits by simp
  from read_loop_spec [OF max_io bound fits0, of w "fd f"] obtain ok a1 w1 buf1 where
    rl: "read_loop (H5_POSIX_MAX_IO_BYTES e) w (fd f) addr addr (unat sz) buf 0
          = (ok, a1, w1, buf1)"
    and rest: "file_bytes w1 = file_bytes w" "EV_ERROR \<notin> set (io_script w) \<longrightarrow> ok"
      "ok \<longrightarrow>
            a1 = addr + of_nat (length (file_read (file_bytes w) (unat addr) (unat sz)))
            \<and> buf1 = take 0 buf @ file_read (file_bytes w) (unat addr) (unat sz)
                 @ replicate (unat sz - length (file_read (file_bytes w) (unat addr) (unat sz))) 0
                 @ drop (0 + unat sz) buf"
    by blast
  have "H5FD_gds_read e w f addr sz ptr buf
          = (if ok then Returned (SUCCEED, f\<lparr>pos := a1, op := OP_READ\<rparr>, w1, buf1)
             else Returned (FAIL, f\<lparr>pos := HADDR_UNDEF, op := OP_UNKNOWN\<rparr>, w1, buf1))"
    using host addr region rl
    by (simp add: H5FD_gds_read_def rw_done_def SUCCEED_def FAIL_def)
  with rl rest show ?thesis
    by simp
qed

text \<open>
  C5. A read into a host-resident buffer, with valid arguments and no hard error from
  the operating system (interrupts and short reads are allowed), always returns success.
  The buffer then holds the bytes the file has in the range, followed by zero bytes up
  to the requested size: a sub-read that returns no byte ends the loop and the rest of
  the request is zero-filled. In particular a read that starts at or beyond the end of
  the file yields zero bytes only. The file itself is not changed.
\<close>

theorem host_read_zero_fill:
  assumes host: "is_device_pointer (cudaPointerGetAttributes e) (attributes0 e) ptr = 0"
    and addr: "H5F_addr_defined addr" and region: "\<not> REGION_OVERFLOW addr sz"
    and max_io: "0 < H5_POSIX_MAX_IO_BYTES e" and fits: "unat sz \<le> length buf"
    and no_error: "EV_ERROR \<notin> set (io_script w)"
  shows "(\<exists>w1. H5FD_gds_read e w f addr sz ptr buf
            = Returned (SUCCEED,
                f\<lparr>pos := addr + of_nat (length (file_read (file_bytes w) (unat addr) (unat sz))),
                  op := OP_READ\<rparr>,
                w1,
                file_read (file_bytes w) (unat addr) (unat sz)
                  @ replicate (unat sz - length (file_read (file_bytes w) (unat addr) (unat sz))) 0
                  @ drop (unat sz) buf)
          \<and> file_bytes w1 = file_bytes w)
       \<and> (length (file_bytes w) \<le> unat addr \<longrightarrow>
            (\<exists>w1. H5FD_gds_read e w f addr sz ptr buf
               = Returned (SUCCEED, f\<lparr>pos := addr, op := OP_READ\<rparr>, w1,
                   replicate (unat sz) 0 @ drop (unat sz) buf)))"
proof -
  from host_read_result [OF host addr region max_io fits, of w f] no_error
  have first: "\<exists>w1. H5FD_gds_read e w f addr sz ptr buf
            = Returned (SUCCEED,
                f\<lparr>pos := addr + of_nat (length (file_read (file_bytes w) (unat addr) (unat sz))),
                  op := OP_READ\<rparr>,
                w1,
                file_read (file_bytes w) (unat addr) (unat sz)
                  @ replicate (unat sz - length (file_read (file_bytes w) (unat addr) (unat sz))) 0
                  @ drop (unat sz) buf)
          \<and> file_bytes w1 = file_bytes w"
    by auto
  moreover have "length (file_bytes w) \<le> unat addr \<Longrightarrow>
      file_read (file_bytes w) (unat addr) (unat sz) = []"
    by (simp add: file_read_def)
  ultimately show ?thesis
    by auto
qed

lemma region_ok_8_4: "\<not> REGION_OVERFLOW 8 4"
  by (simp add: REGION_OVERFLOW_def ADDR_OVERFLOW_def SIZE_OVERFLOW_def MAXADDR_def HADDR_UNDEF_def)

lemma replicate_2: "replicate 2 x = [x, x]"
  by (simp add: numeral_2_eq_2)

lemma replicate_4: "replicate 4 x = [x, x, x, x]"
  by (simp add: numeral_eq_Suc)

theorem host_read_zero_fill_witness:
  "(\<exists>w1. H5FD_gds_read env_host
            (sys0\<lparr>file_bytes := [1, 2], io_script := [EV_EINTR, EV_SHORT 0]\<rparr>) file0
            0 4 4096 [9, 9, 9, 9]
          = Returned (SUCCEED, file0\<lparr>pos := 2, op := OP_READ\<rparr>, w1, [1, 2, 0, 0])
        \<and> file_bytes w1 = [1, 2])
   \<and> (\<exists>w1. H5FD_gds_read env_host
            (sys0\<lparr>file_bytes := [1, 2], io_script := [EV_EINTR, EV_SHORT 0]\<rparr>) file0
            8 4 4096 [9, 9, 9, 9]
          = Returned (SUCCEED, file0\<lparr>pos := 8, op := OP_READ\<rparr>, w1, [0, 0, 0, 0]))"
  using host_read_zero_fill
    [OF host_ptr [of 4096], where addr = 0 and sz = 4 and buf = "[9, 9, 9, 9]"
      and w = "sys0\<lparr>file_bytes := [1, 2], io_script := [EV_EINTR, EV_SHORT 0]\<rparr>"
      and f = file0]
    host_read_zero_fill
    [OF host_ptr [of 4096], where addr = 8 and sz = 4 and buf = "[9, 9, 9, 9]"
      and w = "sys0\<lparr>file_bytes := [1, 2], io_script := [EV_EINTR, EV_SHORT 0]\<rparr>"
      and f = file0]
  by (simp add: H5F_addr_defined_def HADDR_UNDEF_def region_ok_small region_ok_8_4 max_io_host
      file_read_def replicate_2 replicate_4)

subsection \<open>The host write loop\<close>

lemma pwrite_retry_result:
  assumes "io_script w = s"
  shows "\<exists>r w1. pwrite_retry w d src n off = (r, w1)
      \<and> (r = IO_ERROR \<or> (\<exists>k. r = IO_DONE k \<and> k \<le> n))"
  using assms
proof (induction s arbitrary: w)
  case Nil
  then show ?case
    by (subst pwrite_retry.simps) (simp add: HDpwrite_def Let_def)
next
  case (Cons ev s)
  let ?w1 = "(log_call (SC_pwrite d n off) w)\<lparr>io_script := s\<rparr>"
  have sc: "io_script ?w1 = s"
    by (simp add: log_call_def)
  show ?case
  proof (cases ev)
    case EV_EINTR
    with Cons.prems have "pwrite_retry w d src n off = pwrite_retry ?w1 d src n off"
      by (subst pwrite_retry.simps) (simp add: HDpwrite_def Let_def)
    with Cons.IH [OF sc] show ?thesis
      by simp
  next
    case EV_ERROR
    with Cons.prems show ?thesis
      by (subst pwrite_retry.simps) (simp add: HDpwrite_def Let_def)
  next
    case (EV_SHORT c)
    with Cons.prems show ?thesis
      by (subst pwrite_retry.simps) (auto simp: HDpwrite_def Let_def)
  qed
qed

lemma write_loop_addr:
  "write_loop max_io w d addr off sz src = Returned (True, a1, w1) \<Longrightarrow> a1 = addr + of_nat sz"
proof (induction sz arbitrary: w addr off src rule: less_induct)
  case (less sz)
  show ?case
  proof (cases "sz = 0")
    case True
    with less.prems show ?thesis
      by (subst (asm) write_loop.simps) simp
  next
    case False
    define n where "n = (if max_io < sz then max_io else sz)"
    have n: "n \<le> sz"
      by (simp add: n_def)
    from pwrite_retry_result [OF refl, of w d src n off] obtain r w2 where
      pr: "pwrite_retry w d src n off = (r, w2)"
      and res: "r = IO_ERROR \<or> (\<exists>k. r = IO_DONE k \<and> k \<le> n)"
      by blast
    from res show ?thesis
    proof
      assume "r = IO_ERROR"
      with less.prems False pr show ?thesis
        by (subst (asm) write_loop.simps) (simp add: n_def)
    next
      assume "\<exists>k. r = IO_DONE k \<and> k \<le> n"
      then obtain k where r: "r = IO_DONE k" and k: "k \<le> n"
        by blast
      show ?thesis
      proof (cases "k = 0")
        case True
        with less.prems False pr r show ?thesis
          by (subst (asm) write_loop.simps) (simp add: n_def)
      next
        case kpos: False
        from less.prems False pr r kpos
        have rec: "write_loop max_io w2 d (addr + of_nat k) (off + of_nat k) (sz - k) (drop k src)
            = Returned (True, a1, w1)"
          by (subst (asm) write_loop.simps) (simp add: n_def)
        have "sz - k < sz"
          using kpos False by simp
        from less.IH [OF this rec] have "a1 = addr + of_nat k + of_nat (sz - k)" .
        also have "\<dots> = addr + of_nat (k + (sz - k))"
          by (simp only: of_nat_add add.assoc)
        finally show ?thesis
          using k n by simp
      qed
    qed
  qed
qed

subsection \<open>The address-space tracker after a successful call\<close>

lemma host_write_success:
  assumes host: "is_device_pointer (cudaPointerGetAttributes e) (attributes0 e) ptr = 0"
    and addr: "H5F_addr_defined addr" and region: "\<not> REGION_OVERFLOW addr sz"
    and ret: "H5FD_gds_write e w f addr sz ptr buf = Returned (SUCCEED, f2, w2)"
  shows "op f2 = OP_WRITE \<and> pos f2 = addr + sz
    \<and> eof f2 = (if eof f < addr + sz then addr + sz else eof f)"
proof (cases "write_loop (H5_POSIX_MAX_IO_BYTES e) w (fd f) addr addr (unat sz) buf")
  case Aborted
  with host addr region have "H5FD_gds_write e w f addr sz ptr buf = Aborted"
    by (simp add: H5FD_gds_write_def)
  with ret show ?thesis
    by simp
next
  case (Returned res)
  obtain ok a1 w1 where res: "res = (ok, a1, w1)"
    by (cases res)
  show ?thesis
  proof (cases ok)
    case False
    with host addr region Returned res
    have "H5FD_gds_write e w f addr sz ptr buf = Returned (FAIL, rw_done FAIL f, w1)"
      by (simp add: H5FD_gds_write_def)
    with ret show ?thesis
      by (simp add: SUCCEED_def FAIL_def)
  next
    case True
    with Returned res have "a1 = addr + of_nat (unat sz)"
      by (intro write_loop_addr) simp
    then have a1: "a1 = addr + sz"
      by simp
    from host addr region Returned res True
    have "H5FD_gds_write e w f addr sz ptr buf
        = Returned (SUCCEED,
            (if eof f < a1 then f\<lparr>pos := a1, op := OP_WRITE, eof := a1\<rparr>
             else f\<lparr>pos := a1, op := OP_WRITE\<rparr>), w1)"
      by (simp add: H5FD_gds_write_def rw_done_def Let_def SUCCEED_def)
    with ret a1 show ?thesis
      by (auto split: if_splits)
  qed
qed

lemma host_read_success:
  assumes host: "is_device_pointer (cudaPointerGetAttributes e) (attributes0 e) ptr = 0"
    and addr: "H5F_addr_defined addr" and region: "\<not> REGION_OVERFLOW addr sz"
    and max_io: "0 < H5_POSIX_MAX_IO_BYTES e" and fits: "unat sz \<le> length buf"
    and ret: "H5FD_gds_read e w f addr sz ptr buf = Returned (SUCCEED, f1, w1, buf1)"
  shows "op f1 = OP_READ
    \<and> pos f1 = addr + of_nat (length (file_read (file_bytes w) (unat addr) (unat sz)))"
  using host_read_result [OF host addr region max_io fits, where w = w and f = f] ret
  by (auto simp: SUCCEED_def FAIL_def split: if_splits)

lemma ex_write_device:
  "H5FD_gds_write env_dev sys0 file0 0 4 4096 [1, 2, 3, 4]
     = Returned (SUCCEED, file0,
         sys0\<lparr>file_bytes := [1, 2, 3, 4],
              calls := [SC_cuFileBufRegister 4, SC_cuFileWrite 4 0 0, SC_cuFileBufDeregister]\<rparr>)"
  by (simp add: H5FD_gds_write_def H5F_addr_defined_def region_ok_small dev_ptr rw_done_def
      gds_write_transfer_def cuFileWrite_def cu_grant_def cuFileBufRegister_def
      cuFileBufDeregister_def file_write_def log_call_def Let_def herr_of_ptr_NULL
      SUCCEED_def file0_def sys0_def HADDR_UNDEF_def)

text \<open>
  C3, as stated, fails on the accelerator path: a write of four bytes from a
  device-resident buffer to an empty file succeeds and leaves the handle as it was, with
  \<open>pos\<close> undefined and \<open>op\<close> unknown (and \<open>eof\<close> at 0).
\<close>

theorem device_write_tracker_counterexample:
  "H5FD_gds_write env_dev sys0 file0 0 4 4096 [1, 2, 3, 4]
     = Returned (SUCCEED, file0,
         sys0\<lparr>file_bytes := [1, 2, 3, 4],
              calls := [SC_cuFileBufRegister 4, SC_cuFileWrite 4 0 0, SC_cuFileBufDeregister]\<rparr>)
   \<and> pos file0 = HADDR_UNDEF \<and> op file0 = OP_UNKNOWN \<and> op file0 \<noteq> OP_WRITE
   \<and> eof file0 = 0"
  using ex_write_device by (simp add: file0_def)

text \<open>
  C3, amended. A successful read or write of a host-resident buffer updates the tracker:
  a read sets \<open>op\<close> to \<open>OP_READ\<close> and \<open>pos\<close> to the address after the last byte read
  from the file; a write sets \<open>op\<close> to \<open>OP_WRITE\<close> and \<open>pos\<close> to \<open>addr + size\<close>, and
  raises \<open>eof\<close> to that address exactly when it lies beyond \<open>eof\<close>. A read or write of a
  device-resident buffer leaves \<open>pos\<close> and \<open>op\<close> as they were.
\<close>

theorem rw_success_tracker:
  assumes addr: "H5F_addr_defined addr" and region: "\<not> REGION_OVERFLOW addr sz"
    and max_io: "0 < H5_POSIX_MAX_IO_BYTES e" and fits: "unat sz \<le> length buf"
  shows
    "(is_device_pointer (cudaPointerGetAttributes e) (attributes0 e) ptr = 0
        \<and> H5FD_gds_read e w f addr sz ptr buf = Returned (SUCCEED, f1, w1, buf1)
      \<longrightarrow> op f1 = OP_READ
          \<and> pos f1 = addr + of_nat (length (file_read (file_bytes w) (unat addr) (unat sz))))
     \<and> (is_device_pointer (cudaPointerGetAttributes e) (attributes0 e) ptr = 0
        \<and> H5FD_gds_write e w f addr sz ptr buf = Returned (SUCCEED, f2, w2)
      \<longrightarrow> op f2 = OP_WRITE \<and> pos f2 = addr + sz
          \<and> eof f2 = (if eof f < addr + sz then addr + sz else eof f))
     \<and> (is_device_pointer (cudaPointerGetAttributes e) (attributes0 e) ptr \<noteq> 0
        \<and> H5FD_gds_read e w f addr sz ptr buf = Returned (r3, f3, w3, buf3)
      \<longrightarrow> pos f3 = pos f \<and> op f3 = op f)
     \<and> (is_device_pointer (cudaPointerGetAttributes e) (attributes0 e) ptr \<noteq> 0
        \<and> H5FD_gds_write e w f addr sz ptr buf = Returned (r4, f4, w4)
      \<longrightarrow> pos f4 = pos f \<and> op f4 = op f)"
proof (intro conjI impI)
  assume "is_device_pointer (cudaPointerGetAttributes e) (attributes0 e) ptr = 0
        \<and> H5FD_gds_read e w f addr sz ptr buf = Returned (SUCCEED, f1, w1, buf1)"
  then have "op f1 = OP_READ
    \<and> pos f1 = addr + of_nat (length (file_read (file_bytes w) (unat addr) (unat sz)))"
    using host_read_success [OF _ addr region max_io fits] by blast
  then show "op f1 = OP_READ"
    and "pos f1 = addr + of_nat (length (file_read (file_bytes w) (unat addr) (unat sz)))"
    by simp_all
next
  assume "is_device_pointer (cudaPointerGetAttributes e) (attributes0 e) ptr = 0
        \<and> H5FD_gds_write e w f addr sz ptr buf = Returned (SUCCEED, f2, w2)"
  then have "op f2 = OP_WRITE \<and> pos f2 = addr + sz
    \<and> eof f2 = (if eof f < addr + sz then addr + sz else eof f)"
    using host_write_success [OF _ addr region] by blast
  then show "op f2 = OP_WRITE" and "pos f2 = addr + sz"
    and "eof f2 = (if eof f < addr + sz then addr + sz else eof f)"
    by simp_all
next
  assume a: "is_device_pointer (cudaPointerGetAttributes e) (attributes0 e) ptr \<noteq> 0
        \<and> H5FD_gds_read e w f addr sz ptr buf = Returned (r3, f3, w3, buf3)"
  then have "f3 = f"
    using read_device_shape [OF _ addr region, where e = e and ptr = ptr and w = w and f = f
        and buf = buf] by auto
  then show "pos f3 = pos f" and "op f3 = op f"
    by simp_all
next
  assume a: "is_device_pointer (cudaPointerGetAttributes e) (attributes0 e) ptr \<noteq> 0
        \<and> H5FD_gds_write e w f addr sz ptr buf = Returned (r4, f4, w4)"
  then have "f4 = f"
    using write_device_shape [OF _ addr region, where e = e and ptr = ptr and w = w and f = f
        and buf = buf] by auto
  then show "pos f4 = pos f" and "op f4 = op f"
    by simp_all
qed

lemma ex_write_host:
  "H5FD_gds_write env_host sys0 file0 0 4 4096 [1, 2, 3, 4]
     = Returned (SUCCEED, file0\<lparr>pos := 4, op := OP_WRITE, eof := 4\<rparr>,
         sys0\<lparr>file_bytes := [1, 2, 3, 4], calls := [SC_pwrite 3 4 0]\<rparr>)"
  by (simp add: H5FD_gds_write_def H5F_addr_defined_def region_ok_small host_ptr rw_done_def
      write_loop.simps pwrite_retry.simps HDpwrite_def file_write_def log_call_def Let_def
      max_io_host SUCCEED_def file0_def sys0_def HADDR_UNDEF_def)

lemma ex_read_host:
  "H5FD_gds_read env_host (sys0\<lparr>file_bytes := [1, 2, 3, 4]\<rparr>)
      (file0\<lparr>pos := 4, op := OP_WRITE, eof := 4\<rparr>) 0 4 4096 [9, 9, 9, 9]
     = Returned (SUCCEED, file0\<lparr>pos := 4, op := OP_READ, eof := 4\<rparr>,
         sys0\<lparr>file_bytes := [1, 2, 3, 4], calls := [SC_pread 3 4 0]\<rparr>, [1, 2, 3, 4])"
  by (simp add: H5FD_gds_read_def H5F_addr_defined_def region_ok_small host_ptr rw_done_def
      read_loop.simps pread_retry.simps HDpread_def file_read_def buf_store_def log_call_def
      Let_def max_io_host SUCCEED_def file0_def sys0_def HADDR_UNDEF_def)

theorem rw_success_tracker_witness:
  "H5FD_gds_write env_host sys0 file0 0 4 4096 [1, 2, 3, 4]
     = Returned (SUCCEED, file0\<lparr>pos := 4, op := OP_WRITE, eof := 4\<rparr>,
         sys0\<lparr>file_bytes := [1, 2, 3, 4], calls := [SC_pwrite 3 4 0]\<rparr>)
   \<and> op (file0\<lparr>pos := 4, op := OP_WRITE, eof := 4\<rparr>) = OP_WRITE
   \<and> pos (file0\<lparr>pos := 4, op := OP_WRITE, eof := 4\<rparr>) = 0 + 4
   \<and> eof (file0\<lparr>pos := 4, op := OP_WRITE, eof := 4\<rparr>) = 4
   \<and> eof file0 < 4
   \<and> H5FD_gds_read env_host (sys0\<lparr>file_bytes := [1, 2, 3, 4]\<rparr>)
      (file0\<lparr>pos := 4, op := OP_WRITE, eof := 4\<rparr>) 0 4 4096 [9, 9, 9, 9]
     = Returned (SUCCEED, file0\<lparr>pos := 4, op := OP_READ, eof := 4\<rparr>,
         sys0\<lparr>file_bytes := [1, 2, 3, 4], calls := [SC_pread 3 4 0]\<rparr>, [1, 2, 3, 4])
   \<and> op (file0\<lparr>pos := 4, op := OP_READ, eof := 4\<rparr>) = OP_READ"
  using rw_success_tracker
    [where e = env_host and addr = 0 and sz = 4 and ptr = 4096 and buf = "[1, 2, 3, 4]"
      and w = sys0 and f = file0
      and ?f2.0 = "file0\<lparr>pos := 4, op := OP_WRITE, eof := 4\<rparr>"
      and ?w2.0 = "sys0\<lparr>file_bytes := [1, 2, 3, 4], calls := [SC_pwrite 3 4 0]\<rparr>"]
    rw_success_tracker
    [where e = env_host and addr = 0 and sz = 4 and ptr = 4096 and buf = "[9, 9, 9, 9]"
      and w = "sys0\<lparr>file_bytes := [1, 2, 3, 4]\<rparr>"
      and f = "file0\<lparr>pos := 4, op := OP_WRITE, eof := 4\<rparr>"
      and ?f1.0 = "file0\<lparr>pos := 4, op := OP_READ, eof := 4\<rparr>"
      and ?w1.0 = "sys0\<lparr>file_bytes := [1, 2, 3, 4], calls := [SC_pread 3 4 0]\<rparr>"
      and ?buf1.0 = "[1, 2, 3, 4]"]
    ex_write_host ex_read_host
  by (simp add: H5F_addr_defined_def HADDR_UNDEF_def region_ok_small max_io_host host_ptr
      file0_def)

subsection \<open>Writing and reading back\<close>

lemma file_write_append:
  "file_write (file_write data a xs) (a + length xs) ys = file_write data a (xs @ ys)"
proof -
  define P where "P = take a data @ replicate (a - length data) (0 :: byte)"
  have P: "length P = a"
    by (simp add: P_def)
  have w1: "file_write data a xs = P @ xs @ drop (a + length xs) data"
    by (simp add: file_write_def P_def)
  have "take (a + length xs) (P @ xs @ drop (a + length xs) data) = P @ xs"
    using P by simp
  moreover have "drop (a + length xs + length ys) (P @ xs @ drop (a + length xs) data)
      = drop (a + length xs + length ys) data"
    using P by (simp add: add.commute)
  moreover have "a + length xs - length (P @ xs @ drop (a + length xs) data) = 0"
    using P by simp
  ultimately have "file_write (P @ xs @ drop (a + length xs) data) (a + length xs) ys
      = P @ xs @ ys @ drop (a + length xs + length ys) data"
    by (simp add: file_write_def)
  then show ?thesis
    by (simp add: w1) (simp add: file_write_def P_def add.assoc)
qed

lemma file_write_length_ge: "a + length bs \<le> length (file_write data a bs)"
  by (simp add: file_write_def)

lemma file_read_file_write: "file_read (file_write data a bs) a (length bs) = bs"
proof -
  define P where "P = take a data @ replicate (a - length data) (0 :: byte)"
  have P: "length P = a"
    by (simp add: P_def)
  have "file_write data a bs = P @ bs @ drop (a + length bs) data"
    by (simp add: file_write_def P_def)
  then show ?thesis
    using P by (simp add: file_read_def)
qed

lemma buf_store_append:
  assumes "p \<le> length buf"
  shows "buf_store (buf_store buf p xs) (p + length xs) ys = buf_store buf p (xs @ ys)"
proof -
  have P: "length (take p buf) = p"
    using assms by simp
  have "take (p + length xs) (take p buf @ xs @ drop (p + length xs) buf) = take p buf @ xs"
    using P by simp
  moreover have "drop (p + length xs + length ys) (take p buf @ xs @ drop (p + length xs) buf)
      = drop (p + length xs + length ys) buf"
    using P by (simp add: add.commute)
  ultimately show ?thesis
    by (simp add: buf_store_def add.assoc)
qed

lemma take_drop_split:
  "k \<le> n \<Longrightarrow> take n (drop a xs) = take k (drop a xs) @ take (n - k) (drop (a + k) xs)"
proof -
  assume "k \<le> n"
  then have "take n (drop a xs) = take (k + (n - k)) (drop a xs)"
    by simp
  also have "\<dots> = take k (drop a xs) @ take (n - k) (drop k (drop a xs))"
    by (simp only: take_add)
  finally show ?thesis
    by (simp add: add.commute)
qed

lemma unat_plus64:
  fixes a b :: "64 word"
  assumes "unat a + unat b < 2 ^ 63"
  shows "unat (a + b) = unat a + unat b"
proof -
  have "unat a + unat b < 2 ^ LENGTH(64)"
    using assms by simp
  then show ?thesis
    by (simp only: unat_add_lem)
qed

subsection \<open>The workers in an undisturbed accelerator subsystem\<close>

lemma cuFileWrite_ideal:
  assumes "cu_script w = []" and "0 \<le> sint fo" and "0 \<le> sint bo"
  shows "cuFileWrite w buf n fo bo
    = (int (length (take (unat n) (drop (unat bo) buf))),
       (log_call (SC_cuFileWrite n fo bo) w)
         \<lparr>cu_script := [],
          file_bytes := file_write (file_bytes w) (unat fo) (take (unat n) (drop (unat bo) buf))\<rparr>)"
  using assms by (simp add: cuFileWrite_def cu_grant_def Let_def)

lemma cuFileRead_ideal:
  assumes "cu_script w = []" and "0 \<le> sint fo" and "0 \<le> sint bo"
  shows "cuFileRead w buf n fo bo
    = (int (length (file_read (file_bytes w) (unat fo) (unat n))),
       (log_call (SC_cuFileRead n fo bo) w)\<lparr>cu_script := []\<rparr>,
       buf_store buf (unat bo) (file_read (file_bytes w) (unat fo) (unat n)))"
  using assms by (simp add: cuFileRead_def cu_grant_def Let_def)

lemma write_thread_fn_spec:
  assumes "n = unat (size_td td)" and "0 < n"
    and "cu_script w = []" and "block_size td \<noteq> 0"
    and "unat (offset td) + unat (size_td td) < 2 ^ 63"
    and "unat (devPtr_offset td) + unat (size_td td) \<le> length buf"
    and "length buf < 2 ^ 63"
  shows "\<exists>w1. write_thread_fn w buf td = Returned w1
    \<and> file_bytes w1 = file_write (file_bytes w) (unat (offset td))
          (take (unat (size_td td)) (drop (unat (devPtr_offset td)) buf))
    \<and> cu_script w1 = []
    \<and> buf_register_ok w1 = buf_register_ok w
    \<and> buf_deregister_ok w1 = buf_deregister_ok w"
  using assms
proof (induction n arbitrary: w td rule: less_induct)
  case (less n)
  have szpos: "0 < size_td td"
    using less.prems(1,2) by (simp add: word_less_nat_alt)
  have fo: "0 \<le> sint (offset td)" and bo: "0 \<le> sint (devPtr_offset td)"
    using less.prems(5,6,7) by (simp_all add: sint_nonneg_iff)
  have upos: "0 < uint (size_td td)"
    using szpos by (simp add: word_less_def)
  have "0 < unat (block_size td)"
    using less.prems(4) by (simp add: unat_gt_0)
  then have "int 0 < int (unat (block_size td))"
    by (simp only: of_nat_less_iff)
  then have bupos: "0 < uint (block_size td)"
    by simp
  show ?case
  proof (cases "block_size td < size_td td")
    case False
    have full: "length (take (unat (size_td td)) (drop (unat (devPtr_offset td)) buf))
        = unat (size_td td)"
      using less.prems(6) by simp
    let ?w1 = "(log_call (SC_cuFileWrite (size_td td) (offset td) (devPtr_offset td)) w)
         \<lparr>cu_script := [],
          file_bytes := file_write (file_bytes w) (unat (offset td))
            (take (unat (size_td td)) (drop (unat (devPtr_offset td)) buf))\<rparr>"
    have "write_thread_fn w buf td = Returned ?w1"
      using szpos False less.prems(1,2) full upos
      by (subst write_thread_fn.simps)
        (simp add: cuFileWrite_ideal [OF less.prems(3) fo bo] del: length_take)
    then show ?thesis
      by (simp add: log_call_def)
  next
    case True
    define b where "b = unat (block_size td)"
    have bpos: "0 < b"
      using less.prems(4) by (simp add: b_def unat_gt_0)
    have blt: "b < n"
      using True less.prems(1) by (simp add: b_def word_less_nat_alt)
    define blk where "blk = take b (drop (unat (devPtr_offset td)) buf)"
    have blk: "length blk = b"
      using blt less.prems(1,6) by (simp add: blk_def)
    let ?w1 = "(log_call (SC_cuFileWrite (block_size td) (offset td) (devPtr_offset td)) w)
         \<lparr>cu_script := [],
          file_bytes := file_write (file_bytes w) (unat (offset td)) blk\<rparr>"
    let ?td = "td\<lparr>offset := offset td + block_size td,
                   devPtr_offset := devPtr_offset td + block_size td,
                   size_td := size_td td - block_size td\<rparr>"
    have step: "write_thread_fn w buf td = write_thread_fn ?w1 buf ?td"
      using szpos True blk bpos bupos
      by (subst write_thread_fn.simps)
        (simp add: cuFileWrite_ideal [OF less.prems(3) fo bo] blk_def b_def del: length_take)
    have "block_size td \<le> size_td td"
      using True by simp
    then have "unat (size_td td - block_size td) = unat (size_td td) - unat (block_size td)"
      by (rule unat_sub)
    then have sz': "unat (size_td ?td) = n - b"
      using less.prems(1) by (simp add: b_def)
    have off': "unat (offset ?td) = unat (offset td) + b"
      using less.prems(1,5) blt by (simp add: b_def unat_plus64)
    have dev': "unat (devPtr_offset ?td) = unat (devPtr_offset td) + b"
      using less.prems(1,6,7) blt by (simp add: b_def unat_plus64)
    have "\<exists>w2. write_thread_fn ?w1 buf ?td = Returned w2
      \<and> file_bytes w2 = file_write (file_bytes ?w1) (unat (offset ?td))
            (take (unat (size_td ?td)) (drop (unat (devPtr_offset ?td)) buf))
      \<and> cu_script w2 = []
      \<and> buf_register_ok w2 = buf_register_ok ?w1
      \<and> buf_deregister_ok w2 = buf_deregister_ok ?w1"
    proof (rule less.IH [of "n - b"])
      show "n - b < n"
        using bpos blt by simp
      show "n - b = unat (size_td ?td)"
        using sz' by simp
      show "0 < n - b"
        using blt by simp
      show "cu_script ?w1 = []"
        by simp
      show "block_size ?td \<noteq> 0"
        using less.prems(4) by simp
      show "unat (offset ?td) + unat (size_td ?td) < 2 ^ 63"
        using off' sz' less.prems(1,5) blt by simp
      show "unat (devPtr_offset ?td) + unat (size_td ?td) \<le> length buf"
        using dev' sz' less.prems(1,6) blt by simp
      show "length buf < 2 ^ 63"
        by (rule less.prems(7))
    qed
    then obtain w2 where w2: "write_thread_fn ?w1 buf ?td = Returned w2"
      and fb: "file_bytes w2 = file_write (file_bytes ?w1) (unat (offset ?td))
            (take (unat (size_td ?td)) (drop (unat (devPtr_offset ?td)) buf))"
      and rest: "cu_script w2 = []" "buf_register_ok w2 = buf_register_ok ?w1"
        "buf_deregister_ok w2 = buf_deregister_ok ?w1"
      by blast
    have "file_bytes w2
        = file_write (file_write (file_bytes w) (unat (offset td)) blk)
            (unat (offset td) + length blk)
            (take (n - b) (drop (unat (devPtr_offset td) + b) buf))"
      using fb off' dev' sz' blk by simp
    also have "\<dots> = file_write (file_bytes w) (unat (offset td))
        (blk @ take (n - b) (drop (unat (devPtr_offset td) + b) buf))"
      by (rule file_write_append)
    also have "blk @ take (n - b) (drop (unat (devPtr_offset td) + b) buf)
        = take n (drop (unat (devPtr_offset td)) buf)"
      unfolding blk_def using blt by (intro take_drop_split [symmetric]) simp
    finally have "file_bytes w2 = file_write (file_bytes w) (unat (offset td))
          (take (unat (size_td td)) (drop (unat (devPtr_offset td)) buf))"
      using less.prems(1) by simp
    with step w2 rest show ?thesis
      by (simp add: log_call_def)
  qed
qed

lemma read_thread_fn_spec:
  assumes "n = unat (size_td td)" and "0 < n"
    and "cu_script w = []" and "block_size td \<noteq> 0"
    and "unat (offset td) + unat (size_td td) \<le> length (file_bytes w)"
    and "unat (offset td) + unat (size_td td) < 2 ^ 63"
    and "unat (devPtr_offset td) + unat (size_td td) \<le> length buf"
    and "length buf < 2 ^ 63"
  shows "\<exists>w1. read_thread_fn w buf td
      = Returned (w1, buf_store buf (unat (devPtr_offset td))
                        (file_read (file_bytes w) (unat (offset td)) (unat (size_td td))))
    \<and> file_bytes w1 = file_bytes w
    \<and> cu_script w1 = []
    \<and> buf_register_ok w1 = buf_register_ok w
    \<and> buf_deregister_ok w1 = buf_deregister_ok w"
  using assms
proof (induction n arbitrary: w td buf rule: less_induct)
  case (less n)
  have szpos: "0 < size_td td"
    using less.prems(1,2) by (simp add: word_less_nat_alt)
  have fo: "0 \<le> sint (offset td)" and bo: "0 \<le> sint (devPtr_offset td)"
    using less.prems(5,6,7,8) by (simp_all add: sint_nonneg_iff)
  have upos: "0 < uint (size_td td)"
    using szpos by (simp add: word_less_def)
  have "0 < unat (block_size td)"
    using less.prems(4) by (simp add: unat_gt_0)
  then have "int 0 < int (unat (block_size td))"
    by (simp only: of_nat_less_iff)
  then have bupos: "0 < uint (block_size td)"
    by simp
  show ?case
  proof (cases "block_size td < size_td td")
    case False
    have full: "length (file_read (file_bytes w) (unat (offset td)) (unat (size_td td)))
        = unat (size_td td)"
      using less.prems(5) by (simp add: file_read_def)
    let ?w1 = "(log_call (SC_cuFileRead (size_td td) (offset td) (devPtr_offset td)) w)
         \<lparr>cu_script := []\<rparr>"
    have "read_thread_fn w buf td
        = Returned (?w1, buf_store buf (unat (devPtr_offset td))
                        (file_read (file_bytes w) (unat (offset td)) (unat (size_td td))))"
      using szpos False less.prems(1,2) full upos
      by (subst read_thread_fn.simps) (simp add: cuFileRead_ideal [OF less.prems(3) fo bo])
    then show ?thesis
      by (simp add: log_call_def)
  next
    case True
    define b where "b = unat (block_size td)"
    have bpos: "0 < b"
      using less.prems(4) by (simp add: b_def unat_gt_0)
    have blt: "b < n"
      using True less.prems(1) by (simp add: b_def word_less_nat_alt)
    define blk where "blk = file_read (file_bytes w) (unat (offset td)) b"
    have blk: "length blk = b"
      using blt less.prems(1,5) by (simp add: blk_def file_read_def)
    let ?w1 = "(log_call (SC_cuFileRead (block_size td) (offset td) (devPtr_offset td)) w)
         \<lparr>cu_script := []\<rparr>"
    let ?buf1 = "buf_store buf (unat (devPtr_offset td)) blk"
    let ?td = "td\<lparr>offset := offset td + block_size td,
                   devPtr_offset := devPtr_offset td + block_size td,
                   size_td := size_td td - block_size td\<rparr>"
    have step: "read_thread_fn w buf td = read_thread_fn ?w1 ?buf1 ?td"
      using szpos True blk bpos bupos
      by (subst read_thread_fn.simps)
        (simp add: cuFileRead_ideal [OF less.prems(3) fo bo] blk_def b_def)
    have "block_size td \<le> size_td td"
      using True by simp
    then have "unat (size_td td - block_size td) = unat (size_td td) - unat (block_size td)"
      by (rule unat_sub)
    then have sz': "unat (size_td ?td) = n - b"
      using less.prems(1) by (simp add: b_def)
    have off': "unat (offset ?td) = unat (offset td) + b"
      using less.prems(1,5,6) blt by (simp add: b_def unat_plus64)
    have dev': "unat (devPtr_offset ?td) = unat (devPtr_offset td) + b"
      using less.prems(1,7,8) blt by (simp add: b_def unat_plus64)
    have len1: "length ?buf1 = length buf"
      using blk blt less.prems(1,7) by (intro buf_store_length) simp
    have "\<exists>w2. read_thread_fn ?w1 ?buf1 ?td
        = Returned (w2, buf_store ?buf1 (unat (devPtr_offset ?td))
                        (file_read (file_bytes ?w1) (unat (offset ?td)) (unat (size_td ?td))))
      \<and> file_bytes w2 = file_bytes ?w1
      \<and> cu_script w2 = []
      \<and> buf_register_ok w2 = buf_register_ok ?w1
      \<and> buf_deregister_ok w2 = buf_deregister_ok ?w1"
    proof (rule less.IH [of "n - b"])
      show "n - b < n"
        using bpos blt by simp
      show "n - b = unat (size_td ?td)"
        using sz' by simp
      show "0 < n - b"
        using blt by simp
      show "cu_script ?w1 = []"
        by simp
      show "block_size ?td \<noteq> 0"
        using less.prems(4) by simp
      show "unat (offset ?td) + unat (size_td ?td) \<le> length (file_bytes ?w1)"
        using off' sz' less.prems(1,5) blt by (simp add: log_call_def)
      show "unat (offset ?td) + unat (size_td ?td) < 2 ^ 63"
        using off' sz' less.prems(1,6) blt by simp
      show "unat (devPtr_offset ?td) + unat (size_td ?td) \<le> length ?buf1"
        using dev' sz' less.prems(1,7) blt len1 by simp
      show "length ?buf1 < 2 ^ 63"
        using len1 less.prems(8) by simp
    qed
    then obtain w2 where w2: "read_thread_fn ?w1 ?buf1 ?td
        = Returned (w2, buf_store ?buf1 (unat (devPtr_offset ?td))
                        (file_read (file_bytes ?w1) (unat (offset ?td)) (unat (size_td ?td))))"
      and rest: "file_bytes w2 = file_bytes ?w1" "cu_script w2 = []"
        "buf_register_ok w2 = buf_register_ok ?w1"
        "buf_deregister_ok w2 = buf_deregister_ok ?w1"
      by blast
    have dle: "unat (devPtr_offset td) \<le> length buf"
      using less.prems(7) by simp
    have "buf_store ?buf1 (unat (devPtr_offset ?td))
            (file_read (file_bytes ?w1) (unat (offset ?td)) (unat (size_td ?td)))
        = buf_store ?buf1 (unat (devPtr_offset td) + length blk)
            (file_read (file_bytes w) (unat (offset td) + b) (n - b))"
      using off' dev' sz' blk by (simp add: log_call_def)
    also have "\<dots> = buf_store buf (unat (devPtr_offset td))
        (blk @ file_read (file_bytes w) (unat (offset td) + b) (n - b))"
      using dle by (rule buf_store_append)
    also have "blk @ file_read (file_bytes w) (unat (offset td) + b) (n - b)
        = file_read (file_bytes w) (unat (offset td)) n"
      unfolding blk_def file_read_def using blt by (intro take_drop_split [symmetric]) simp
    finally have "buf_store ?buf1 (unat (devPtr_offset ?td))
            (file_read (file_bytes ?w1) (unat (offset ?td)) (unat (size_td ?td)))
        = buf_store buf (unat (devPtr_offset td))
            (file_read (file_bytes w) (unat (offset td)) (unat (size_td td)))"
      using less.prems(1) by simp
    with step w2 rest show ?thesis
      by (simp add: log_call_def)
  qed
qed

subsection \<open>Ten bytes, three configured threads\<close>

lemma partition_10_3:
  assumes "num_io_threads f = 3"
  shows "partition_td f addr 10
    = [\<lparr>offset = addr, devPtr_offset = 0,
        block_size = scast (ucast (io_block_size f) :: 32 word), size_td = 10\<rparr>]"
  using assms
  by (simp add: partition_td_def effective_io_threads_def fill_td_def io_chunk_def
      io_chunk_rem_def)

lemma scast_32_64_eq_0:
  assumes "(scast (x :: 32 word) :: 64 word) = 0"
  shows "x = 0"
proof -
  have "sint (scast x :: 64 word) = sint x"
    by (rule sint_up_scast) (simp add: is_up)
  with assms have "sint x = 0"
    by simp
  then show ?thesis
    by (simp add: signed_eq_0_iff)
qed

lemma buf_store_whole: "length buf = length bs \<Longrightarrow> buf_store buf 0 bs = bs"
  by (simp add: buf_store_def)

text \<open>
  C7, as stated, fails on the lengths: with a request of 10 bytes and 3 configured
  threads the page floor (\<open>1 + (10 - 1) div 4096 = 1 < 3\<close>) reduces the thread count to
  1, and the one worker gets all 10 bytes, not the lengths 3, 3 and 4.
\<close>

theorem partition_10_3_counterexample:
  "effective_io_threads 10 3 = 1
   \<and> map size_td (partition_td (file0\<lparr>num_io_threads := 3\<rparr>) 0 10) = [10]
   \<and> map size_td (partition_td (file0\<lparr>num_io_threads := 3\<rparr>) 0 10) \<noteq> [3, 3, 4]"
  by (simp add: effective_io_threads_def io_chunk_def io_chunk_rem_def partition_td_def
      fill_td_def file0_def)

text \<open>
  C7, amended. For a transfer of 10 bytes with 3 configured threads the page floor
  reduces the effective thread count to 1, and the single worker is assigned all 10
  bytes. With a device-resident buffer, a non-zero block size and an accelerator
  subsystem that completes every call, writing 10 bytes at an address and reading 10
  bytes back from it returns success twice and yields the bytes written, whatever the
  block size, the address and the contents of the file before.
\<close>

theorem device_round_trip_10_3:
  assumes threads: "num_io_threads f = 3"
    and blk: "(ucast (io_block_size f) :: 32 word) \<noteq> 0"
    and dev: "is_device_pointer (cudaPointerGetAttributes e) (attributes0 e) ptr \<noteq> 0"
    and addr: "H5F_addr_defined addr" and region: "\<not> REGION_OVERFLOW addr 10"
    and data: "length data = 10" and buf: "length buf = 10"
    and ideal: "cu_script w = []" "buf_register_ok w" "buf_deregister_ok w"
  shows "effective_io_threads 10 (num_io_threads f) = 1
     \<and> map size_td (partition_td f addr 10) = [10]
     \<and> (\<exists>w1 w2. H5FD_gds_write e w f addr 10 ptr data = Returned (SUCCEED, f, w1)
          \<and> H5FD_gds_read e w1 f addr 10 ptr buf = Returned (SUCCEED, f, w2, data))"
proof -
  define td where "td = \<lparr>offset = addr, devPtr_offset = 0,
        block_size = scast (ucast (io_block_size f) :: 32 word), size_td = (10 :: 64 word)\<rparr>"
  have part: "partition_td f addr 10 = [td]"
    unfolding td_def using threads by (rule partition_10_3)
  have pos: "0 < sint (num_io_threads f)"
    using threads by simp
  have bound: "unat addr + 10 < 2 ^ 63"
    using region_bounds [OF region] by simp
  have bnz: "block_size td \<noteq> 0"
    using blk scast_32_64_eq_0 [of "ucast (io_block_size f)"] by (auto simp: td_def)
  let ?w0 = "log_call (SC_cuFileBufRegister 10) w"
  have "\<exists>w1. write_thread_fn ?w0 data td = Returned w1
    \<and> file_bytes w1 = file_write (file_bytes ?w0) (unat (offset td))
          (take (unat (size_td td)) (drop (unat (devPtr_offset td)) data))
    \<and> cu_script w1 = []
    \<and> buf_register_ok w1 = buf_register_ok ?w0
    \<and> buf_deregister_ok w1 = buf_deregister_ok ?w0"
  proof (rule write_thread_fn_spec [of 10])
    show "10 = unat (size_td td)" and "0 < (10 :: nat)"
      by (simp_all add: td_def)
    show "cu_script ?w0 = []"
      using ideal(1) by (simp add: log_call_def)
    show "block_size td \<noteq> 0"
      by (rule bnz)
    show "unat (offset td) + unat (size_td td) < 2 ^ 63"
      using bound by (simp add: td_def)
    show "unat (devPtr_offset td) + unat (size_td td) \<le> length data"
      using data by (simp add: td_def)
    show "length data < 2 ^ 63"
      using data by simp
  qed
  then obtain w1 where wt: "write_thread_fn ?w0 data td = Returned w1"
    and fb1: "file_bytes w1 = file_write (file_bytes w) (unat addr) data"
    and id1: "cu_script w1 = []" "buf_register_ok w1" "buf_deregister_ok w1"
    using data ideal by (auto simp: td_def log_call_def)
  let ?w2 = "log_call SC_cuFileBufDeregister w1"
  have wr: "H5FD_gds_write e w f addr 10 ptr data = Returned (SUCCEED, f, ?w2)"
    using dev addr region ideal id1 wt
    by (simp add: H5FD_gds_write_def cuFileBufRegister_def cuFileBufDeregister_def
        gds_write_transfer_def pos part rw_done_def SUCCEED_def)
  have id2: "cu_script ?w2 = []" "buf_register_ok ?w2" "buf_deregister_ok ?w2"
    and fb2: "file_bytes ?w2 = file_write (file_bytes w) (unat addr) data"
    using id1 fb1 by (simp_all add: log_call_def)
  let ?w3 = "log_call (SC_cuFileBufRegister 10) ?w2"
  have fb3: "file_bytes ?w3 = file_write (file_bytes w) (unat addr) data"
    using fb2 by (simp add: log_call_def)
  have "\<exists>w4. read_thread_fn ?w3 buf td
      = Returned (w4, buf_store buf (unat (devPtr_offset td))
                        (file_read (file_bytes ?w3) (unat (offset td)) (unat (size_td td))))
    \<and> file_bytes w4 = file_bytes ?w3
    \<and> cu_script w4 = []
    \<and> buf_register_ok w4 = buf_register_ok ?w3
    \<and> buf_deregister_ok w4 = buf_deregister_ok ?w3"
  proof (rule read_thread_fn_spec [of 10])
    show "10 = unat (size_td td)" and "0 < (10 :: nat)"
      by (simp_all add: td_def)
    show "cu_script ?w3 = []"
      using id2(1) by (simp add: log_call_def)
    show "block_size td \<noteq> 0"
      by (rule bnz)
    show "unat (offset td) + unat (size_td td) \<le> length (file_bytes ?w3)"
      using file_write_length_ge [of "unat addr" data "file_bytes w"] data
      by (simp add: fb3 td_def)
    show "unat (offset td) + unat (size_td td) < 2 ^ 63"
      using bound by (simp add: td_def)
    show "unat (devPtr_offset td) + unat (size_td td) \<le> length buf"
      using buf by (simp add: td_def)
    show "length buf < 2 ^ 63"
      using buf by simp
  qed
  then obtain w4 where rt: "read_thread_fn ?w3 buf td
      = Returned (w4, buf_store buf 0 (file_read (file_bytes ?w3) (unat addr) 10))"
    and id4: "buf_deregister_ok w4"
    using id2 by (auto simp: td_def log_call_def)
  have "file_read (file_bytes ?w3) (unat addr) 10 = data"
    using file_read_file_write [of "file_bytes w" "unat addr" data] data by (simp add: fb3)
  then have rt': "read_thread_fn ?w3 buf td = Returned (w4, data)"
    using rt buf data by (simp add: buf_store_whole)
  have rd: "H5FD_gds_read e ?w2 f addr 10 ptr buf
      = Returned (SUCCEED, f, log_call SC_cuFileBufDeregister w4, data)"
    using dev addr region id2 id4 rt'
    by (simp add: H5FD_gds_read_def cuFileBufRegister_def cuFileBufDeregister_def
        gds_read_transfer_def pos part rw_done_def SUCCEED_def)
  have "effective_io_threads 10 (num_io_threads f) = 1"
    using threads by (simp add: effective_io_threads_def)
  moreover have "map size_td (partition_td f addr 10) = [10]"
    using part by (simp add: td_def)
  ultimately show ?thesis
    using wr rd by blast
qed

lemma region_ok_0_10: "\<not> REGION_OVERFLOW 0 10"
  by (simp add: REGION_OVERFLOW_def ADDR_OVERFLOW_def SIZE_OVERFLOW_def MAXADDR_def HADDR_UNDEF_def)

theorem device_round_trip_10_3_witness:
  "effective_io_threads 10 (num_io_threads (file0\<lparr>num_io_threads := 3\<rparr>)) = 1
   \<and> map size_td (partition_td (file0\<lparr>num_io_threads := 3\<rparr>) 0 10) = [10]
   \<and> (\<exists>w1 w2.
        H5FD_gds_write env_dev sys0 (file0\<lparr>num_io_threads := 3\<rparr>) 0 10 4096
            [1, 2, 3, 4, 5, 6, 7, 8, 9, 10]
          = Returned (SUCCEED, file0\<lparr>num_io_threads := 3\<rparr>, w1)
        \<and> H5FD_gds_read env_dev w1 (file0\<lparr>num_io_threads := 3\<rparr>) 0 10 4096
            [0, 0, 0, 0, 0, 0, 0, 0, 0, 0]
          = Returned (SUCCEED, file0\<lparr>num_io_threads := 3\<rparr>, w2,
              [1, 2, 3, 4, 5, 6, 7, 8, 9, 10]))"
  using device_round_trip_10_3
    [where f = "file0\<lparr>num_io_threads := 3\<rparr>" and e = env_dev and ptr = 4096 and addr = 0
      and data = "[1, 2, 3, 4, 5, 6, 7, 8, 9, 10]" and buf = "[0, 0, 0, 0, 0, 0, 0, 0, 0, 0]"
      and w = sys0]
  by (simp add: dev_ptr_4096 H5F_addr_defined_def HADDR_UNDEF_def region_ok_0_10 file0_def
      sys0_def)

text \<open>Three workers appear once the request has at least three pages: 12289 bytes are
  split into 4096, 4096 and 4097.\<close>

lemma upt_0_3: "[0..<3] = [0, 1, 2]"
  by code_simp

lemma partition_12289_3:
  "map size_td (partition_td (file0\<lparr>num_io_threads := 3\<rparr>) 0 12289) = [4096, 4096, 4097]
   \<and> map devPtr_offset (partition_td (file0\<lparr>num_io_threads := 3\<rparr>) 0 12289)
       = [0, 4096, 8192]"
  by (simp add: effective_io_threads_def io_chunk_def io_chunk_rem_def partition_td_def
      fill_td_def file0_def upt_0_3)

subsection \<open>The partition of requests below \<open>2 ^ 32\<close> bytes\<close>

lemma unat_ucast_small:
  fixes w :: "'a::len word"
  assumes "unat w < 2 ^ LENGTH('b::len)"
  shows "unat (ucast w :: 'b word) = unat w"
  using assms by (simp add: unsigned_ucast_eq take_bit_nat_eq_self)

lemma unat_pages:
  fixes sz :: "64 word"
  assumes "sz \<noteq> 0"
  shows "unat (1 + (sz - 1) div 4096) = 1 + (unat sz - 1) div 4096"
proof -
  have d: "unat ((sz - 1) div 4096) = (unat sz - 1) div 4096"
    using assms by (simp add: unat_div unat_minus_one)
  have "unat sz < 2 ^ 64"
    using unsigned_less [of sz] by simp
  then have "(unat sz - 1) div 4096 < 2 ^ 52"
    by simp
  then have "unat (1 :: 64 word) + unat ((sz - 1) div 4096) < 2 ^ 63"
    using d by simp
  then have "unat (1 + (sz - 1) div 4096) = unat (1 :: 64 word) + unat ((sz - 1) div 4096)"
    by (rule unat_plus64)
  with d show ?thesis
    by simp
qed

lemma sint_pos_unat32:
  fixes T :: "32 word"
  assumes "0 < sint T"
  shows "int (unat T) = sint T" and "unat T < 2 ^ 31" and "0 < unat T"
proof -
  have nonneg: "0 \<le> sint T"
    using assms by simp
  then have eq: "sint T = uint T"
    by (rule sint_nonneg_uint)
  then show "int (unat T) = sint T"
    by simp
  have "sint T < 2 ^ (LENGTH(32) - 1)"
    by (rule sint_lt)
  with eq have "int (unat T) < int (2 ^ 31)"
    by simp
  then show "unat T < 2 ^ 31"
    by (simp only: of_nat_less_iff)
  from assms eq have "int 0 < int (unat T)"
    by simp
  then show "0 < unat T"
    by (simp only: of_nat_less_iff)
qed

lemma effective_io_threads_unat:
  fixes sz :: "64 word" and T :: "32 word"
  assumes T: "0 < sint T" and sz: "sz \<noteq> 0"
  shows "unat (effective_io_threads sz T) = min (unat T) (1 + (unat sz - 1) div 4096)"
proof -
  have T32: "unat T < 2 ^ 32"
    using sint_pos_unat32(2) [OF T] by simp
  have ucT: "unat (ucast T :: 64 word) = unat T"
    by (rule unat_ucast_small) (use T32 in simp)
  show ?thesis
  proof (cases "1 + (sz - 1) div 4096 < (ucast T :: 64 word)")
    case True
    then have lt: "1 + (unat sz - 1) div 4096 < unat T"
      by (simp add: word_less_nat_alt ucT unat_pages [OF sz])
    then have "unat (1 + (sz - 1) div 4096) < 2 ^ LENGTH(32)"
      using T32 by (simp add: unat_pages [OF sz])
    then have "unat (ucast (1 + (sz - 1) div 4096) :: 32 word) = unat (1 + (sz - 1) div 4096)"
      by (rule unat_ucast_small)
    with True lt show ?thesis
      by (simp add: effective_io_threads_def unat_pages [OF sz])
  next
    case False
    then have "unat T \<le> 1 + (unat sz - 1) div 4096"
      by (simp add: word_less_nat_alt ucT unat_pages [OF sz])
    with False show ?thesis
      by (simp add: effective_io_threads_def)
  qed
qed

lemma unat32_lt64: "unat (x :: 32 word) < 2 ^ LENGTH(64)"
proof -
  have "unat x < 2 ^ LENGTH(32)"
    by (rule unsigned_less)
  also have "(2 :: nat) ^ LENGTH(32) < 2 ^ LENGTH(64)"
    by simp
  finally show ?thesis .
qed

lemma io_chunk_unat:
  fixes sz :: "64 word" and n :: "32 word"
  assumes "unat sz < 2 ^ 32"
  shows "unat (io_chunk sz n) = unat sz div unat n"
    and "unat (io_chunk_rem sz n) = unat sz mod unat n"
proof -
  have s32: "unat (ucast sz :: 32 word) = unat sz"
    by (rule unat_ucast_small) (use assms in simp)
  have "unat ((ucast sz :: 32 word) div n) < 2 ^ LENGTH(64)"
    by (rule unat32_lt64)
  then have "unat (ucast ((ucast sz :: 32 word) div n) :: 64 word)
      = unat ((ucast sz :: 32 word) div n)"
    by (rule unat_ucast_small)
  then show "unat (io_chunk sz n) = unat sz div unat n"
    by (simp add: io_chunk_def unat_div s32)
  have "unat ((ucast sz :: 32 word) mod n) < 2 ^ LENGTH(64)"
    by (rule unat32_lt64)
  then have "unat (ucast ((ucast sz :: 32 word) mod n) :: 64 word)
      = unat ((ucast sz :: 32 word) mod n)"
    by (rule unat_ucast_small)
  then show "unat (io_chunk_rem sz n) = unat sz mod unat n"
    by (simp add: io_chunk_rem_def unat_mod s32)
qed

text \<open>
  For a request of less than \<open>2 ^ 32\<close> bytes the partition is the one the spec
  describes: with \<open>n\<close> the smaller of the configured thread count and the page count
  \<open>1 + (size - 1) div 4096\<close>, there are \<open>n\<close> workers; worker \<open>i\<close> starts at file offset
  \<open>off + i * base\<close> and device offset \<open>i * base\<close>, with \<open>base = size div n\<close>, and has
  length \<open>base\<close>, the last one \<open>base + size mod n\<close>; the lengths add up to the size.
\<close>

lemma partition_exact_below_4GiB:
  fixes sz :: "64 word"
  assumes T: "0 < sint (num_io_threads f)" and sz: "sz \<noteq> 0" and small: "unat sz < 2 ^ 32"
  defines "n \<equiv> min (unat (num_io_threads f)) (1 + (unat sz - 1) div 4096)"
  defines "base \<equiv> unat sz div n"
  defines "rest \<equiv> unat sz mod n"
  shows "length (partition_td f off sz) = n"
    and "\<forall>i<n. offset (partition_td f off sz ! i) = off + of_nat (i * base)
            \<and> devPtr_offset (partition_td f off sz ! i) = of_nat (i * base)
            \<and> unat (size_td (partition_td f off sz ! i))
                = (if i = n - 1 then base + rest else base)"
    and "sum_list (map (\<lambda>td. unat (size_td td)) (partition_td f off sz)) = unat sz"
proof -
  define N where "N = effective_io_threads sz (num_io_threads f)"
  define c where "c = io_chunk sz N"
  define r where "r = io_chunk_rem sz N"
  define g where "g = (\<lambda>ii :: nat.
      \<lparr>offset = off + of_nat ii * c, devPtr_offset = of_nat ii * c,
       block_size = scast (ucast (io_block_size f) :: 32 word),
       size_td = (if int ii = sint N - 1 then c + r else c)\<rparr>)"
  have N: "unat N = n"
    unfolding N_def n_def using T sz by (rule effective_io_threads_unat)
  have npos: "0 < n"
    using sint_pos_unat32(3) [OF T] by (simp add: n_def)
  have "n < 2 ^ 31"
    using sint_pos_unat32(2) [OF T] by (simp add: n_def)
  then have "int (unat N) < int (2 ^ 31)"
    unfolding N by (simp only: of_nat_less_iff)
  then have "uint N < 2 ^ (LENGTH(32) - 1)"
    by simp
  then have "sint N = uint N"
    by (rule uint_small_sint)
  also have "uint N = int (unat N)"
    by (rule uint_nat)
  finally have sN: "sint N = int n"
    by (simp only: N)
  have c: "unat c = base" and r: "unat r = rest"
    using io_chunk_unat [OF small, of N] by (simp_all add: c_def r_def base_def rest_def N)
  have c_of: "c = of_nat base" and r_of: "r = of_nat rest"
    using c r by auto
  have "base + rest \<le> unat sz + unat sz"
    using npos by (simp add: base_def rest_def add_mono div_le_dividend mod_le_divisor)
  then have "unat c + unat r < 2 ^ 63"
    using small c r by simp
  then have cr: "unat (c + r) = base + rest"
    using c r by (simp add: unat_plus64)
  have part: "partition_td f off sz = map g [0..<n]"
    by (simp add: partition_td_def fill_td_def g_def N_def [symmetric] c_def r_def sN)
  show "length (partition_td f off sz) = n"
    by (simp add: part)
  have elem: "unat (size_td (g i)) = (if i = n - 1 then base + rest else base)" for i
    using npos by (auto simp: g_def sN c cr)
  show "\<forall>i<n. offset (partition_td f off sz ! i) = off + of_nat (i * base)
            \<and> devPtr_offset (partition_td f off sz ! i) = of_nat (i * base)
            \<and> unat (size_td (partition_td f off sz ! i))
                = (if i = n - 1 then base + rest else base)"
  proof (intro allI impI)
    fix i
    assume "i < n"
    then have "partition_td f off sz ! i = g i"
      by (simp add: part)
    moreover have "offset (g i) = off + of_nat (i * base)"
      and "devPtr_offset (g i) = of_nat (i * base)"
      by (simp_all add: g_def c_of)
    ultimately show "offset (partition_td f off sz ! i) = off + of_nat (i * base)
            \<and> devPtr_offset (partition_td f off sz ! i) = of_nat (i * base)
            \<and> unat (size_td (partition_td f off sz ! i))
                = (if i = n - 1 then base + rest else base)"
      using elem [of i] by simp
  qed
  have elem2: "unat (size_td (g i)) = base + (if i = n - 1 then rest else 0)" for i
    by (simp add: elem)
  have "sum_list (map (\<lambda>td. unat (size_td td)) (partition_td f off sz))
      = sum_list (map (\<lambda>i. base + (if i = n - 1 then rest else 0)) [0..<n])"
    by (simp only: part map_map comp_def elem2)
  also have "\<dots> = (\<Sum>i = 0..<n. base + (if i = n - 1 then rest else 0))"
    by (simp add: interv_sum_list_conv_sum_set_nat)
  also have "\<dots> = n * base + (\<Sum>i = 0..<n. if i = n - 1 then rest else 0)"
    by (simp add: sum.distrib)
  also have "(\<Sum>i = 0..<n. if i = n - 1 then rest else 0) = rest"
    using npos by (simp add: sum.delta)
  also have "n * base + rest = unat sz"
    by (simp add: base_def rest_def)
  finally show "sum_list (map (\<lambda>td. unat (size_td td)) (partition_td f off sz)) = unat sz" .
qed

end
